theory Spec2Isabelle
  imports Main "HOL-Library.Word" "HOL-Library.List_Lexorder"
begin

unbundle bit_operations_syntax

section \<open>Keys and byte strings (pkg/roachpb/data.go)\<close>

type_synonym byte = "8 word"
type_synonym Key = "byte list"

text \<open>
  \<open>bytes.Compare\<close> of the Go standard library: the lexicographic comparison of two
  byte strings, bytes read unsigned; the result is -1, 0 or 1.
\<close>

fun bytes_Compare :: "byte list \<Rightarrow> byte list \<Rightarrow> int" where
  "bytes_Compare [] [] = 0"
| "bytes_Compare [] (y # ys) = -1"
| "bytes_Compare (x # xs) [] = 1"
| "bytes_Compare (x # xs) (y # ys) =
     (if x < y then -1 else if y < x then 1 else bytes_Compare xs ys)"

text \<open>
  Modelled from the spec: \<open>encoding.BytesNext\<close> is declared outside src/. The spec gives
  \<open>"b".Next() = "b\x00"\<close>: the key that sorts immediately after, the receiver with one
  zero byte appended.
\<close>

definition BytesNext :: "byte list \<Rightarrow> byte list" where
  "BytesNext k = k @ [0]"

text \<open>\<open>func (k Key) Next() Key\<close>\<close>

definition Next :: "Key \<Rightarrow> Key" where
  "Next k = BytesNext k"

text \<open>\<open>func (k Key) Equal(l Key) bool\<close>: \<open>bytes.Equal\<close>, which does not tell nil from empty.\<close>

definition Key_Equal :: "Key \<Rightarrow> Key \<Rightarrow> bool" where
  "Key_Equal k l = (k = l)"

text \<open>\<open>func (k Key) Compare(b Key) int\<close>\<close>

definition Key_Compare :: "Key \<Rightarrow> Key \<Rightarrow> int" where
  "Key_Compare k b = bytes_Compare k b"

section \<open>Spans\<close>

record Span =
  Key :: Key
  EndKey :: Key

text \<open>The zero value \<open>Span{}\<close>.\<close>

definition Span_zero :: Span where
  "Span_zero = \<lparr>Key = [], EndKey = []\<rparr>"

text \<open>\<open>func (s Span) Valid() bool\<close>\<close>

definition Valid :: "Span \<Rightarrow> bool" where
  "Valid s =
     (if length (Key s) = 0 \<and> length (EndKey s) = 0 then False
      else if length (EndKey s) = 0 then True
      else if bytes_Compare (Key s) (EndKey s) \<ge> 0 then False
      else True)"

text \<open>\<open>func (s Span) Overlaps(o Span) bool\<close>\<close>

definition Overlaps :: "Span \<Rightarrow> Span \<Rightarrow> bool" where
  "Overlaps s o' =
     (if \<not> Valid s \<or> \<not> Valid o' then False
      else if length (EndKey s) = 0 \<and> length (EndKey o') = 0 then Key_Equal (Key s) (Key o')
      else if length (EndKey s) = 0 then
        bytes_Compare (Key s) (Key o') \<ge> 0 \<and> bytes_Compare (Key s) (EndKey o') < 0
      else if length (EndKey o') = 0 then
        bytes_Compare (Key o') (Key s) \<ge> 0 \<and> bytes_Compare (Key o') (EndKey s) < 0
      else bytes_Compare (EndKey s) (Key o') > 0 \<and> bytes_Compare (Key s) (EndKey o') < 0)"

text \<open>\<open>func (s Span) Contains(o Span) bool\<close>\<close>

definition Contains :: "Span \<Rightarrow> Span \<Rightarrow> bool" where
  "Contains s o' =
     (if \<not> Valid s \<or> \<not> Valid o' then False
      else if length (EndKey s) = 0 \<and> length (EndKey o') = 0 then Key_Equal (Key s) (Key o')
      else if length (EndKey s) = 0 then False
      else if length (EndKey o') = 0 then
        bytes_Compare (Key o') (Key s) \<ge> 0 \<and> bytes_Compare (Key o') (EndKey s) < 0
      else bytes_Compare (Key s) (Key o') \<le> 0 \<and> bytes_Compare (EndKey s) (EndKey o') \<ge> 0)"

text \<open>\<open>func (s Span) ContainsKey(key Key) bool\<close>\<close>

definition ContainsKey :: "Span \<Rightarrow> Key \<Rightarrow> bool" where
  "ContainsKey s key = (bytes_Compare key (Key s) \<ge> 0 \<and> bytes_Compare key (EndKey s) < 0)"

text \<open>\<open>func (s Span) Intersect(o Span) Span\<close>\<close>

definition Intersect :: "Span \<Rightarrow> Span \<Rightarrow> Span" where
  "Intersect s o' =
     (if \<not> Overlaps s o' then Span_zero
      else if length (EndKey s) = 0 then s
      else if length (EndKey o') = 0 then o'
      else
        (let key = (if Key_Compare (Key s) (Key o') < 0 then Key o' else Key s);
             endKey = (if Key_Compare (EndKey s) (EndKey o') > 0 then EndKey o' else EndKey s)
         in \<lparr>Key = key, EndKey = endKey\<rparr>))"

text \<open>\<open>func (s Span) Combine(o Span) Span\<close>\<close>

definition Combine :: "Span \<Rightarrow> Span \<Rightarrow> Span" where
  "Combine s o' =
     (if \<not> Valid s \<or> \<not> Valid o' then Span_zero
      else
        (let min0 = Key s;
             max0 = (if length (EndKey s) > 0 then EndKey s else Key s);
             min1 = (if Key_Compare (Key o') min0 < 0 then Key o' else min0);
             max1 = (if Key_Compare (Key o') min0 < 0 then max0
                     else if Key_Compare (Key o') max0 > 0 then Key o' else max0);
             max2 = (if length (EndKey o') > 0 \<and> Key_Compare (EndKey o') max1 > 0
                     then EndKey o' else max1)
         in if Key_Equal min1 max2 then \<lparr>Key = min1, EndKey = []\<rparr>
            else if Key_Equal (Key s) max2 \<or> Key_Equal (Key o') max2
              then \<lparr>Key = min1, EndKey = Next max2\<rparr>
            else \<lparr>Key = min1, EndKey = max2\<rparr>))"

text \<open>\<open>func (s Span) SplitOnKey(key Key) (left Span, right Span)\<close>\<close>

definition SplitOnKey :: "Span \<Rightarrow> Key \<Rightarrow> Span \<times> Span" where
  "SplitOnKey s key =
     (if bytes_Compare key (Key s) \<le> 0 \<or> bytes_Compare key (EndKey s) \<ge> 0 then (s, Span_zero)
      else (\<lparr>Key = Key s, EndKey = key\<rparr>, \<lparr>Key = key, EndKey = EndKey s\<rparr>))"

text \<open>
  The two representations of one key: the single-key span \<open>{Key: k}\<close> and the half-open
  span \<open>[k, k.Next())\<close>. \<open>as_range\<close> rewrites the first form into the second and leaves a
  span with an end key alone; it is the reading of a single-key span that the data model
  gives.
\<close>

definition single :: "Key \<Rightarrow> Span" where
  "single k = \<lparr>Key = k, EndKey = []\<rparr>"

definition point_range :: "Key \<Rightarrow> Span" where
  "point_range k = \<lparr>Key = k, EndKey = Next k\<rparr>"

definition as_range :: "Span \<Rightarrow> Span" where
  "as_range s = (if EndKey s = [] then \<lparr>Key = Key s, EndKey = Next (Key s)\<rparr> else s)"

section \<open>Timestamps\<close>

type_synonym int32 = "32 word"
type_synonym uint32 = "32 word"

text \<open>
  Modelled from the spec: \<open>hlc.Timestamp\<close> and its methods are declared outside src/
  (pkg/util/hlc). A timestamp is a wall time and a logical counter, ordered
  lexicographically; \<open>Forward\<close> is the spec's "max(current, timestamp)", \<open>Backward\<close> its
  minimum, and the zero value is the empty timestamp. The fields are fixed-width integers
  in Go; the code modelled here only copies and compares them, so they are read as the
  integers they denote.
\<close>

record Timestamp =
  WallTime :: int
  Logical :: int

definition Timestamp_zero :: Timestamp where
  "Timestamp_zero = \<lparr>WallTime = 0, Logical = 0\<rparr>"

definition Less :: "Timestamp \<Rightarrow> Timestamp \<Rightarrow> bool" where
  "Less t s = (WallTime t < WallTime s \<or> (WallTime t = WallTime s \<and> Logical t < Logical s))"

definition LessEq :: "Timestamp \<Rightarrow> Timestamp \<Rightarrow> bool" where
  "LessEq t s = (WallTime t < WallTime s \<or> (WallTime t = WallTime s \<and> Logical t \<le> Logical s))"

definition IsEmpty :: "Timestamp \<Rightarrow> bool" where
  "IsEmpty t = (WallTime t = 0 \<and> Logical t = 0)"

definition Forward :: "Timestamp \<Rightarrow> Timestamp \<Rightarrow> Timestamp" where
  "Forward t s = (if Less t s then s else t)"

definition Backward :: "Timestamp \<Rightarrow> Timestamp \<Rightarrow> Timestamp" where
  "Backward t s = (if Less s t then s else t)"

section \<open>Transactions (pkg/roachpb/data.go)\<close>

text \<open>
  \<open>TransactionStatus\<close>. The Go type is an int32 enumeration; the five declared values are
  the constructors, so the \<open>default\<close> branch of the status switch in \<open>Update\<close> (a fatal
  error on an undeclared value) has no counterpart here.
\<close>

datatype TransactionStatus = PENDING | STAGING | COMMITTED | ABORTED | PREPARED

text \<open>\<open>func (ts TransactionStatus) IsFinalized() bool\<close>\<close>

definition IsFinalized :: "TransactionStatus \<Rightarrow> bool" where
  "IsFinalized ts = (ts = COMMITTED \<or> ts = ABORTED)"

text \<open>
  Modelled from the spec: the integer types and the priority bounds of package enginepb
  are declared outside src/. \<open>TxnEpoch\<close>, \<open>TxnSeq\<close> and \<open>TxnPriority\<close> are Go int32 (data.go
  converts to \<open>TxnPriority\<close> under a \<open>math.MaxInt32\<close> guard), compared signed, and \<open>++\<close>
  wraps around; \<open>MinTxnPriority\<close> is the spec's distinguished minimum-priority sentinel.
\<close>

definition MinTxnPriority :: int32 where
  "MinTxnPriority = 0"

definition MaxTxnPriority :: int32 where
  "MaxTxnPriority = 2147483647"

text \<open>
  The transaction record: the fields of \<open>enginepb.TxnMeta\<close> that data.go reads or writes
  and those of \<open>roachpb.Transaction\<close>. \<open>ID\<close> is a 16-byte UUID, zero when unset. A nil
  slice and an empty one are both the empty list: the code only takes their length.
\<close>

record Transaction =
  ID :: "128 word"
  TxnKey :: Key
  IsoLevel :: int32
  Epoch :: int32
  WriteTimestamp :: Timestamp
  MinTimestamp :: Timestamp
  Priority :: int32
  Sequence :: int32
  Status :: TransactionStatus
  LastHeartbeat :: Timestamp
  ReadTimestamp :: Timestamp
  ReadTimestampFixed :: bool
  GlobalUncertaintyLimit :: Timestamp
  ObservedTimestamps :: "(int32 \<times> Timestamp) list"
  LockSpans :: "Span list"
  InFlightWrites :: "(Key \<times> int32) list"
  IgnoredSeqNums :: "(int32 \<times> int32) list"
  AdmissionPriority :: int32
  OmitInRangefeeds :: bool

text \<open>\<open>func (t *Transaction) BumpEpoch()\<close>: \<open>t.Epoch++\<close> on an int32.\<close>

definition BumpEpoch :: "Transaction \<Rightarrow> Transaction" where
  "BumpEpoch t = t\<lparr>Epoch := Epoch t + 1\<rparr>"

text \<open>\<open>func (t *Transaction) UpgradePriority(minPriority enginepb.TxnPriority)\<close>\<close>

definition UpgradePriority :: "int32 \<Rightarrow> Transaction \<Rightarrow> Transaction" where
  "UpgradePriority minPriority t =
     (if sint minPriority > sint (Priority t) \<and> Priority t \<noteq> MinTxnPriority
      then t\<lparr>Priority := minPriority\<rparr> else t)"

text \<open>
  \<open>func (t *Transaction) Restart(userPriority, upgradePriority, timestamp)\<close>.
  \<open>MakePriority(userPriority)\<close> draws from a random source and computes in float64, so
  its outcome is an argument of the model: \<open>Some p\<close> when it returns the priority \<open>p\<close>,
  \<open>None\<close> when it panics (an explicit priority beyond \<open>math.MaxInt32\<close>), in which case
  \<open>Restart\<close> does not return either.
\<close>

definition Restart :: "int32 option \<Rightarrow> int32 \<Rightarrow> Timestamp \<Rightarrow> Transaction \<Rightarrow> Transaction option" where
  "Restart made upgradePriority timestamp t =
     (let t1 = BumpEpoch t;
          t2 = (if Less (WriteTimestamp t1) timestamp then t1\<lparr>WriteTimestamp := timestamp\<rparr> else t1);
          t3 = t2\<lparr>ReadTimestamp := WriteTimestamp t2\<rparr>
      in case made of
           None \<Rightarrow> None
         | Some p \<Rightarrow>
             (let t4 = UpgradePriority p t3;
                  t5 = UpgradePriority upgradePriority t4
              in Some (t5\<lparr>Sequence := 0, ReadTimestampFixed := False, LockSpans := [],
                        InFlightWrites := [], IgnoredSeqNums := []\<rparr>)))"

text \<open>
  A run of restarts, each with its own arguments (the outcome of \<open>MakePriority\<close>, the
  upgrade priority and the timestamp); it stops where a call does not return.
\<close>

fun Restarts :: "(int32 option \<times> int32 \<times> Timestamp) list \<Rightarrow> Transaction \<Rightarrow> Transaction option" where
  "Restarts [] t = Some t"
| "Restarts ((made, up, ts) # cs) t =
     (case Restart made up ts t of None \<Rightarrow> None | Some t' \<Rightarrow> Restarts cs t')"

text \<open>
  \<open>sort.Search(n, f)\<close> of the Go standard library: binary search for the least index in
  \<open>[0, n)\<close> at which \<open>f\<close> holds, assuming \<open>f\<close> is monotone.
\<close>

function sort_Search_loop :: "nat \<Rightarrow> nat \<Rightarrow> (nat \<Rightarrow> bool) \<Rightarrow> nat" where
  "sort_Search_loop i j f =
     (if i < j then
        (let h = (i + j) div 2
         in if \<not> f h then sort_Search_loop (h + 1) j f else sort_Search_loop i h f)
      else i)"
  by pat_completeness auto
termination
  by (relation "measure (\<lambda>(i, j, f). j - i)") auto

definition sort_Search :: "nat \<Rightarrow> (nat \<Rightarrow> bool) \<Rightarrow> nat" where
  "sort_Search n f = sort_Search_loop 0 n f"

text \<open>\<open>func (s observedTimestampSlice) index(nodeID NodeID) int\<close>\<close>

definition observed_index :: "(int32 \<times> Timestamp) list \<Rightarrow> int32 \<Rightarrow> nat" where
  "observed_index s nodeID = sort_Search (length s) (\<lambda>i. sint (fst (s ! i)) \<ge> sint nodeID)"

text \<open>\<open>func (s observedTimestampSlice) update(nodeID, timestamp) observedTimestampSlice\<close>\<close>

definition observed_update ::
  "(int32 \<times> Timestamp) list \<Rightarrow> int32 \<Rightarrow> Timestamp \<Rightarrow> (int32 \<times> Timestamp) list" where
  "observed_update s nodeID timestamp =
     (let i = observed_index s nodeID
      in if i < length s \<and> fst (s ! i) = nodeID then
           (if Less timestamp (snd (s ! i)) then s[i := (nodeID, timestamp)] else s)
         else take i s @ [(nodeID, timestamp)] @ drop i s)"

text \<open>\<open>func (t *Transaction) UpdateObservedTimestamp(nodeID, timestamp)\<close>\<close>

definition UpdateObservedTimestamp :: "int32 \<Rightarrow> Timestamp \<Rightarrow> Transaction \<Rightarrow> Transaction" where
  "UpdateObservedTimestamp nodeID timestamp t =
     t\<lparr>ObservedTimestamps := observed_update (ObservedTimestamps t) nodeID timestamp\<rparr>"

text \<open>
  \<open>func (t *Transaction) Update(o *Transaction)\<close>, statement by statement in the order
  of the source; each definition below is one statement (or one branch) of the method,
  named after what it updates. First the three branches on the epochs.
\<close>

text \<open>Branch \<open>t.Epoch < o.Epoch\<close>: the status, then all epoch-scoped state replaced.\<close>

definition Update_later_epoch :: "Transaction \<Rightarrow> Transaction \<Rightarrow> Transaction" where
  "Update_later_epoch t o' =
     (let t1 = (if \<not> IsFinalized (Status t) then t\<lparr>Status := Status o'\<rparr> else t)
      in t1\<lparr>Epoch := Epoch o', ReadTimestampFixed := ReadTimestampFixed o',
            Sequence := Sequence o', LockSpans := LockSpans o',
            InFlightWrites := InFlightWrites o', IgnoredSeqNums := IgnoredSeqNums o'\<rparr>)"

text \<open>Branch \<open>t.Epoch == o.Epoch\<close>: the switch on \<open>t.Status\<close>.\<close>

definition Update_same_epoch_status :: "Transaction \<Rightarrow> Transaction \<Rightarrow> Transaction" where
  "Update_same_epoch_status t o' =
     (case Status t of
        PENDING \<Rightarrow> t\<lparr>Status := Status o'\<rparr>
      | PREPARED \<Rightarrow> (if Status o' \<noteq> PENDING then t\<lparr>Status := Status o'\<rparr> else t)
      | STAGING \<Rightarrow> (if Status o' \<noteq> PENDING then t\<lparr>Status := Status o'\<rparr> else t)
      | ABORTED \<Rightarrow> t
      | COMMITTED \<Rightarrow> t)"

text \<open>Branch \<open>t.Epoch == o.Epoch\<close>: the read-timestamp-fixed flag.\<close>

definition Update_same_epoch_fixed :: "Transaction \<Rightarrow> Transaction \<Rightarrow> Transaction" where
  "Update_same_epoch_fixed t o' =
     (if ReadTimestamp t = ReadTimestamp o'
      then t\<lparr>ReadTimestampFixed := ReadTimestampFixed t \<or> ReadTimestampFixed o'\<rparr>
      else if Less (ReadTimestamp t) (ReadTimestamp o')
      then t\<lparr>ReadTimestampFixed := ReadTimestampFixed o'\<rparr>
      else t)"

text \<open>Branch \<open>t.Epoch == o.Epoch\<close>: the sequence number and the three lists.\<close>

definition Update_same_epoch_lists :: "Transaction \<Rightarrow> Transaction \<Rightarrow> Transaction" where
  "Update_same_epoch_lists t o' =
     t\<lparr>Sequence := (if sint (Sequence t) < sint (Sequence o') then Sequence o' else Sequence t),
       LockSpans := (if length (LockSpans o') > 0 then LockSpans o' else LockSpans t),
       InFlightWrites :=
         (if length (InFlightWrites o') > 0 then InFlightWrites o' else InFlightWrites t),
       IgnoredSeqNums :=
         (if length (IgnoredSeqNums o') > 0 then IgnoredSeqNums o' else IgnoredSeqNums t)\<rparr>"

definition Update_same_epoch :: "Transaction \<Rightarrow> Transaction \<Rightarrow> Transaction" where
  "Update_same_epoch t o' =
     Update_same_epoch_lists (Update_same_epoch_fixed (Update_same_epoch_status t o') o') o'"

text \<open>Branch \<open>t.Epoch > o.Epoch\<close>: the switch on \<open>o.Status\<close>.\<close>

definition Update_earlier_epoch :: "Transaction \<Rightarrow> Transaction \<Rightarrow> Transaction" where
  "Update_earlier_epoch t o' =
     (case Status o' of
        ABORTED \<Rightarrow> t\<lparr>Status := ABORTED\<rparr>
      | _ \<Rightarrow> t)"

text \<open>The key and the isolation level, then the branch on the epochs.\<close>

definition Update_key_iso :: "Transaction \<Rightarrow> Transaction \<Rightarrow> Transaction" where
  "Update_key_iso t o' =
     t\<lparr>TxnKey := (if length (TxnKey t) = 0 then TxnKey o' else TxnKey t), IsoLevel := IsoLevel o'\<rparr>"

definition Update_epoch_scoped :: "Transaction \<Rightarrow> Transaction \<Rightarrow> Transaction" where
  "Update_epoch_scoped t o' =
     (if sint (Epoch t) < sint (Epoch o') then Update_later_epoch t o'
      else if Epoch t = Epoch o' then Update_same_epoch t o'
      else Update_earlier_epoch t o')"

text \<open>"Forward each of the transaction timestamps."\<close>

definition Update_forward :: "Transaction \<Rightarrow> Transaction \<Rightarrow> Transaction" where
  "Update_forward t o' =
     t\<lparr>WriteTimestamp := Forward (WriteTimestamp t) (WriteTimestamp o'),
       LastHeartbeat := Forward (LastHeartbeat t) (LastHeartbeat o'),
       GlobalUncertaintyLimit := Forward (GlobalUncertaintyLimit t) (GlobalUncertaintyLimit o'),
       ReadTimestamp := Forward (ReadTimestamp t) (ReadTimestamp o')\<rparr>"

text \<open>"On update, set lower bound timestamps to the minimum seen by either txn."\<close>

definition Update_min_timestamp :: "Transaction \<Rightarrow> Transaction \<Rightarrow> Transaction" where
  "Update_min_timestamp t o' =
     (if IsEmpty (MinTimestamp t) then t\<lparr>MinTimestamp := MinTimestamp o'\<rparr>
      else if \<not> IsEmpty (MinTimestamp o')
      then t\<lparr>MinTimestamp := Backward (MinTimestamp t) (MinTimestamp o')\<rparr>
      else t)"

text \<open>"Absorb the collected clock uncertainty information."\<close>

definition Update_observed :: "Transaction \<Rightarrow> Transaction \<Rightarrow> Transaction" where
  "Update_observed t o' =
     fold (\<lambda>v. UpdateObservedTimestamp (fst v) (snd v)) (ObservedTimestamps o') t"

text \<open>The two fields that a transaction record does not carry.\<close>

definition Update_admission_omit :: "Transaction \<Rightarrow> Transaction \<Rightarrow> Transaction" where
  "Update_admission_omit t o' =
     t\<lparr>AdmissionPriority :=
         (if AdmissionPriority o' \<noteq> 0 then AdmissionPriority o' else AdmissionPriority t),
       OmitInRangefeeds :=
         (if OmitInRangefeeds o' then OmitInRangefeeds o' else OmitInRangefeeds t)\<rparr>"

text \<open>The part of \<open>Update\<close> after the two checks on the ids.\<close>

definition Update_merge :: "Transaction \<Rightarrow> Transaction \<Rightarrow> Transaction" where
  "Update_merge t o' =
     (let t1 = Update_key_iso t o';
          t2 = Update_epoch_scoped t1 o';
          t3 = Update_forward t2 o';
          t4 = Update_min_timestamp t3 o';
          t5 = Update_observed t4 o';
          t6 = UpgradePriority (Priority o') t5
      in Update_admission_omit t6 o')"

text \<open>
  The fatal errors of \<open>Update\<close>: \<open>log.Fatalf\<close> ends the process, so the call has no
  result. \<open>o.AssertInitialized\<close> comes first, then the comparison of the ids.
\<close>

datatype txn_fatal = UninitializedTxn | DifferentTxn

text \<open>\<open>func (t *Transaction) AssertInitialized(ctx)\<close>\<close>

definition AssertInitialized :: "Transaction \<Rightarrow> bool" where
  "AssertInitialized t = (\<not> (ID t = 0 \<or> IsEmpty (WriteTimestamp t)))"

definition Update :: "Transaction \<Rightarrow> Transaction option \<Rightarrow> txn_fatal + Transaction" where
  "Update t oo =
     (case oo of
        None \<Rightarrow> Inr t
      | Some o' \<Rightarrow>
          if \<not> AssertInitialized o' then Inl UninitializedTxn
          else if ID t = 0 then Inr o'
          else if ID t \<noteq> ID o' then Inl DifferentTxn
          else Inr (Update_merge t o'))"

text \<open>The larger of two int32 values, compared signed.\<close>

definition smax :: "int32 \<Rightarrow> int32 \<Rightarrow> int32" where
  "smax a b = (if sint a < sint b then b else a)"

text \<open>A pending transaction at epoch 0, the base of the concrete inputs used below.\<close>

definition txn0 :: Transaction where
  "txn0 = \<lparr>ID = 7, TxnKey = [1], IsoLevel = 0, Epoch = 0,
            WriteTimestamp = \<lparr>WallTime = 10, Logical = 0\<rparr>,
            MinTimestamp = \<lparr>WallTime = 10, Logical = 0\<rparr>,
            Priority = 5, Sequence = 3, Status = PENDING,
            LastHeartbeat = \<lparr>WallTime = 10, Logical = 0\<rparr>,
            ReadTimestamp = \<lparr>WallTime = 10, Logical = 0\<rparr>,
            ReadTimestampFixed = True,
            GlobalUncertaintyLimit = \<lparr>WallTime = 15, Logical = 0\<rparr>,
            ObservedTimestamps = [], LockSpans = [\<lparr>Key = [1], EndKey = [2]\<rparr>],
            InFlightWrites = [([1], 2)], IgnoredSeqNums = [(1, 2)],
            AdmissionPriority = 0, OmitInRangefeeds = False\<rparr>"

text \<open>\<open>txn0\<close> after one restart, and a second view of \<open>txn0\<close> to merge into it.\<close>

definition txn0_restarted :: Transaction where
  "txn0_restarted = txn0\<lparr>Epoch := 1, WriteTimestamp := \<lparr>WallTime = 20, Logical = 0\<rparr>,
      ReadTimestamp := \<lparr>WallTime = 20, Logical = 0\<rparr>, Priority := 9, Sequence := 0,
      ReadTimestampFixed := False, LockSpans := [], InFlightWrites := [], IgnoredSeqNums := []\<rparr>"

definition txn0_other :: Transaction where
  "txn0_other = txn0\<lparr>WriteTimestamp := \<lparr>WallTime = 12, Logical = 0\<rparr>,
                     MinTimestamp := \<lparr>WallTime = 8, Logical = 0\<rparr>\<rparr>"

section \<open>Values and their checksums (pkg/roachpb/data.go)\<close>

text \<open>
  A \<open>Value\<close> as far as the checksum code reads it: the \<open>RawBytes\<close> slice, \<open>None\<close> for a
  nil slice (\<open>InitChecksum\<close> tells nil from empty). The layout of the bytes is a 4-byte
  checksum, a tag byte and the data.
\<close>

record Value =
  RawBytes :: "byte list option"

definition raw :: "Value \<Rightarrow> byte list" where
  "raw v = (case RawBytes v of None \<Rightarrow> [] | Some b \<Rightarrow> b)"

definition checksumUninitialized :: uint32 where
  "checksumUninitialized = 0"

definition checksumSize :: nat where
  "checksumSize = 4"

definition tagPos :: nat where
  "tagPos = checksumSize"

definition headerSize :: nat where
  "headerSize = tagPos + 1"

definition extendedMVCCValLenSize :: uint32 where
  "extendedMVCCValLenSize = 4"

text \<open>
  Modelled from the spec: \<open>ValueType_MVCC_EXTENDED_ENCODING_SENTINEL\<close> is declared in the
  generated protobuf code outside src/; it is the reserved tag byte that marks a value
  with an extended header. The comment in \<open>IsPresent\<close> gives its value, the letter e
  (ASCII 101).
\<close>

definition ValueType_MVCC_EXTENDED_ENCODING_SENTINEL :: byte where
  "ValueType_MVCC_EXTENDED_ENCODING_SENTINEL = 101"

text \<open>
  \<open>binary.BigEndian.Uint32\<close> of the Go standard library: the first four bytes, most
  significant first. Go panics on fewer than four bytes; every call below is behind a
  check that there are more than four, and the last equation is never reached.
\<close>

fun BigEndian_Uint32 :: "byte list \<Rightarrow> uint32" where
  "BigEndian_Uint32 (b0 # b1 # b2 # b3 # bs) =
     push_bit 24 (ucast b0) OR push_bit 16 (ucast b1) OR push_bit 8 (ucast b2) OR ucast b3"
| "BigEndian_Uint32 bs = 0"

text \<open>
  Modelled from the spec: \<open>encoding.EncodeUint32Ascending\<close> and
  \<open>encoding.DecodeUint32Ascending\<close> are declared outside src/ (pkg/util/encoding). They
  write and read the checksum field, a uint32 in four bytes, most significant first.
\<close>

definition EncodeUint32Ascending :: "uint32 \<Rightarrow> byte list" where
  "EncodeUint32Ascending v =
     [ucast (drop_bit 24 v), ucast (drop_bit 16 v), ucast (drop_bit 8 v), ucast v]"

definition DecodeUint32Ascending :: "byte list \<Rightarrow> uint32" where
  "DecodeUint32Ascending b = BigEndian_Uint32 b"

text \<open>\<open>func (v *Value) usesExtendedEncoding() bool\<close>\<close>

definition usesExtendedEncoding :: "Value \<Rightarrow> bool" where
  "usesExtendedEncoding v =
     (length (raw v) > headerSize \<and> raw v ! tagPos = ValueType_MVCC_EXTENDED_ENCODING_SENTINEL)"

text \<open>
  \<open>func (v Value) checksum() uint32\<close>. The size of the extended header is computed in
  uint32 and then converted to \<open>int\<close>. The slice handed to the decoder always has four
  bytes, so its error, and the panic on it, cannot occur.
\<close>

definition checksum :: "Value \<Rightarrow> uint32" where
  "checksum v =
     (if length (raw v) < checksumSize then 0
      else if usesExtendedEncoding v then
        (let extendedHeaderSize = unat (extendedMVCCValLenSize + BigEndian_Uint32 (raw v))
         in if length (raw v) < extendedHeaderSize + headerSize then 0
            else DecodeUint32Ascending
                   (take checksumSize (drop (extendedHeaderSize + 1) (raw v))))
      else DecodeUint32Ascending (take checksumSize (raw v)))"

text \<open>
  \<open>func (v *Value) setChecksum(cksum uint32)\<close>: the four bytes are appended to the empty
  prefix of \<open>RawBytes\<close>, that is written over its first four bytes.
\<close>

definition setChecksum :: "uint32 \<Rightarrow> Value \<Rightarrow> Value" where
  "setChecksum cksum v =
     (if length (raw v) \<ge> checksumSize
      then v\<lparr>RawBytes := Some (EncodeUint32Ascending cksum @ drop checksumSize (raw v))\<rparr>
      else v)"

text \<open>
  What a call can end in besides a result: the panics of Go, and the errors that
  \<open>Verify\<close> returns.
\<close>

datatype panic = InitializedChecksum uint32 | SliceBoundsOutOfRange nat nat

datatype verify_error = InvalidHeaderSize nat | InvalidChecksum uint32

text \<open>
  \<open>func computeChecksum(key, rawBytes []byte, crc hash.Hash32) uint32\<close>. The hasher is
  the function \<open>crc\<close> from the bytes written to the sum; it comes from the pool reset, and
  its two writes are one write of the concatenation. \<open>simpleValueStart\<close> is computed in
  uint32; \<open>rawBytes[simpleValueStart:]\<close> panics when it is beyond the length.
\<close>

definition computeChecksum :: "(byte list \<Rightarrow> uint32) \<Rightarrow> byte list \<Rightarrow> byte list \<Rightarrow> panic + uint32" where
  "computeChecksum crc key rawBytes =
     (if length rawBytes < headerSize then Inr 0
      else if rawBytes ! tagPos = ValueType_MVCC_EXTENDED_ENCODING_SENTINEL then
        (let simpleValueStart = unat (extendedMVCCValLenSize + BigEndian_Uint32 rawBytes + 1)
         in if simpleValueStart > length rawBytes
            then Inl (SliceBoundsOutOfRange simpleValueStart (length rawBytes))
            else
              (let rawBytes' = drop simpleValueStart rawBytes
               in if length rawBytes' < headerSize then Inr 0
                  else
                    (let sum32 = crc (key @ drop checksumSize rawBytes')
                     in if sum32 = checksumUninitialized then Inr 1 else Inr sum32)))
      else
        (let sum32 = crc (key @ drop checksumSize rawBytes)
         in if sum32 = checksumUninitialized then Inr 1 else Inr sum32))"

text \<open>\<open>func (v Value) computeChecksum(key []byte) uint32\<close>\<close>

definition Value_computeChecksum :: "(byte list \<Rightarrow> uint32) \<Rightarrow> byte list \<Rightarrow> Value \<Rightarrow> panic + uint32" where
  "Value_computeChecksum crc key v = computeChecksum crc key (raw v)"

text \<open>\<open>func (v Value) VerifyHeader() error\<close>\<close>

definition VerifyHeader :: "Value \<Rightarrow> verify_error option" where
  "VerifyHeader v =
     (let n = length (raw v)
      in if n > 0 \<and> n < headerSize then Some (InvalidHeaderSize n) else None)"

text \<open>
  \<open>func (v Value) Verify(key []byte) error\<close>: \<open>Inr None\<close> is the nil error, \<open>Inr (Some e)\<close>
  the error \<open>e\<close> returned, \<open>Inl p\<close> a panic.
\<close>

definition Verify :: "(byte list \<Rightarrow> uint32) \<Rightarrow> byte list \<Rightarrow> Value \<Rightarrow> panic + verify_error option" where
  "Verify crc key v =
     (case VerifyHeader v of
        Some err \<Rightarrow> Inr (Some err)
      | None \<Rightarrow>
          (let stored = checksum v
           in if stored \<noteq> 0 then
                (case Value_computeChecksum crc key v of
                   Inl p \<Rightarrow> Inl p
                 | Inr computedSum \<Rightarrow>
                     if computedSum \<noteq> stored then Inr (Some (InvalidChecksum computedSum))
                     else Inr None)
              else Inr None))"

text \<open>\<open>func (v *Value) InitChecksum(key []byte)\<close>\<close>

definition InitChecksum :: "(byte list \<Rightarrow> uint32) \<Rightarrow> byte list \<Rightarrow> Value \<Rightarrow> panic + Value" where
  "InitChecksum crc key v =
     (case RawBytes v of
        None \<Rightarrow> Inr v
      | Some b \<Rightarrow>
          if checksum v \<noteq> checksumUninitialized then Inl (InitializedChecksum (checksum v))
          else (case Value_computeChecksum crc key v of
                  Inl p \<Rightarrow> Inl p
                | Inr computedSum \<Rightarrow> Inr (setChecksum computedSum v)))"

text \<open>
  A stand-in for the hasher in the concrete inputs below: the sum of the bytes. The
  theorems hold for every hasher.
\<close>

fun byte_sum :: "byte list \<Rightarrow> uint32" where
  "byte_sum [] = 0"
| "byte_sum (b # bs) = ucast b + byte_sum bs"

section \<open>Leases (pkg/roachpb/data.go)\<close>

text \<open>
  A Go pointer to a timestamp: nil, or an address together with the timestamp stored
  there. \<open>==\<close> on pointers compares the addresses only.
\<close>

type_synonym Timestamp_ptr = "(nat \<times> Timestamp) option"


text \<open>
  \<open>ReplicaDescriptor\<close> and \<open>Lease\<close> are generated from the protobuf definitions outside
  src/; the fields are those that \<open>Lease.Equal\<close>, \<open>Lease.Type\<close> and \<open>Lease.Equivalent\<close>
  in data.go read and write. \<open>Expiration\<close> and \<open>DeprecatedStartStasis\<close> are pointers.
\<close>

record ReplicaDescriptor =
  NodeID :: int32
  StoreID :: int32
  ReplicaID :: int32
  ReplicaType :: int32

record Lease =
  Start :: Timestamp
  Expiration :: Timestamp_ptr
  Replica :: ReplicaDescriptor
  DeprecatedStartStasis :: Timestamp_ptr
  ProposedTS :: Timestamp
  Lease_Epoch :: "64 word"
  Lease_Sequence :: "64 word"
  AcquisitionType :: int32
  MinExpiration :: Timestamp
  Term :: "64 word"


datatype LeaseType = LeaseNone | LeaseExpiration | LeaseEpoch | LeaseLeader

text \<open>
  \<open>func (l Lease) Type() LeaseType\<close>; \<open>None\<close> is the panic "lease cannot have both epoch
  and term".
\<close>

definition Lease_Type :: "Lease \<Rightarrow> LeaseType option" where
  "Lease_Type l =
     (if Lease_Epoch l \<noteq> 0 \<and> Term l \<noteq> 0 then None
      else if Lease_Epoch l \<noteq> 0 then Some LeaseEpoch
      else if Term l \<noteq> 0 then Some LeaseLeader
      else Some LeaseExpiration)"


text \<open>
  \<open>func (l Lease) Equivalent(newL Lease, expToEpochEquiv bool) bool\<close>. Both leases are
  copies, rewritten in steps and compared at the end; each definition below is one block
  of the method and takes and returns the pair \<open>(l, newL)\<close>. First the fields that are
  always ignored.
\<close>

definition Equivalent_ignore :: "Lease \<Rightarrow> Lease" where
  "Equivalent_ignore l =
     l\<lparr>ProposedTS := Timestamp_zero, DeprecatedStartStasis := None, Lease_Sequence := 0,
       AcquisitionType := 0, Replica := (Replica l)\<lparr>ReplicaType := 0\<rparr>\<rparr>"







section \<open>The SST batcher (pkg/kv/bulk/sst_batcher.go)\<close>

text \<open>\<open>storage.MVCCKey\<close>: a key and the timestamp of the version.\<close>

record MVCCKey =
  MVCC_Key :: Key
  MVCC_Timestamp :: Timestamp

text \<open>
  One entry of the result of \<open>sstAdder.AddSSTable\<close>, with the fields that \<open>doFlush\<close>
  reads.
\<close>

record addSSTResult =
  res_timestamp :: Timestamp
  res_rangeSpan :: Span
  res_availableBytes :: nat
  res_followingLikelyNonEmptySpanStart :: Key

text \<open>
  The collaborators of the batcher, which are outside src/: each is the function from
  the arguments of a call to its outcome. \<open>rc_Lookup\<close> stands for \<open>keys.Addr\<close> followed by
  \<open>b.rc.Lookup\<close> and gives the end key of the range that holds the key, \<open>None\<close> when either
  fails; \<open>EnsureSafeSplitKey\<close> gives \<open>None\<close> for its error; \<open>AddSSTable\<close> gives \<open>None\<close> for an
  error and the per-range results otherwise; the other fields say whether a call fails
  (whether the context is done before the flush delay has passed, for
  \<open>flush_delay_cancelled\<close>).
\<close>

record Env =
  rc_Lookup :: "Key \<Rightarrow> Key option"
  clock_Now :: Timestamp
  ingestFileSize :: nat
  EnsureSafeSplitKey :: "Key \<Rightarrow> Key option"
  Count_error :: "Key \<Rightarrow> bool"
  PutRawMVCC_error :: "MVCCKey \<Rightarrow> byte list \<Rightarrow> bool"
  flush_delay_cancelled :: bool
  Finish_error :: bool
  limiter_Begin_error :: bool
  AdminSplit_error :: "Key \<Rightarrow> bool"
  AdminScatter_error :: "Key \<Rightarrow> bool"
  AddSSTable :: "Key \<Rightarrow> Key \<Rightarrow> (MVCCKey \<times> byte list) list \<Rightarrow> addSSTResult list option"

text \<open>The counters of \<open>bulkpb.IngestionPerformanceStats\<close> that the batcher itself counts.\<close>

record IngestionPerformanceStats =
  Batches :: nat
  BatchesDueToRange :: nat
  BatchesDueToSize :: nat
  Splits :: nat
  Scatters :: nat

definition stats_zero :: IngestionPerformanceStats where
  "stats_zero = \<lparr>Batches = 0, BatchesDueToRange = 0, BatchesDueToSize = 0, Splits = 0, Scatters = 0\<rparr>"

definition stats_Combine :: "IngestionPerformanceStats \<Rightarrow> IngestionPerformanceStats \<Rightarrow> IngestionPerformanceStats" where
  "stats_Combine s t =
     \<lparr>Batches = Batches s + Batches t, BatchesDueToRange = BatchesDueToRange s + BatchesDueToRange t,
      BatchesDueToSize = BatchesDueToSize s + BatchesDueToSize t, Splits = Splits s + Splits t,
      Scatters = Scatters s + Scatters t\<rparr>"

text \<open>\<open>enginepb.MVCCStats\<close>, the counters that \<open>updateMVCCStats\<close> maintains.\<close>

record MVCCStats =
  LiveBytes :: int
  LiveCount :: int
  KeyBytes :: int
  KeyCount :: int
  ValBytes :: int
  ValCount :: int

definition MVCCStats_zero :: MVCCStats where
  "MVCCStats_zero = \<lparr>LiveBytes = 0, LiveCount = 0, KeyBytes = 0, KeyCount = 0, ValBytes = 0, ValCount = 0\<rparr>"

text \<open>Modelled from the spec: \<open>storage.MVCCVersionTimestampSize\<close>, declared outside src/.\<close>

definition MVCCVersionTimestampSize :: int where
  "MVCCVersionTimestampSize = 12"

text \<open>The \<open>lastRange\<close> struct of the batcher.\<close>

record lastRange =
  lr_span :: Span
  lr_remaining :: nat
  lr_nextExistingKey :: Key

text \<open>One file handed to \<open>AddSSTable\<close>: the reason of the flush, the span and the entries.\<close>

datatype flushReason = manualFlush | sizeFlush | rangeFlush

record sentFile =
  sent_reason :: flushReason
  sent_start :: Key
  sent_end :: Key
  sent_data :: "(MVCCKey \<times> byte list) list"

text \<open>
  The state of an \<open>SSTBatcher\<close>. \<open>rc_configured\<close> is \<open>b.rc != nil\<close>. The SST writer is the
  list of entries put since the last reset with its \<open>DataSize\<close>. \<open>sent\<close> records the calls
  of \<open>AddSSTable\<close> that succeeded, in order; it is not a field of the Go struct. The row
  counter, the durations among the statistics, the tracing span, the memory account and
  the \<open>onFlush\<close> callback are left out: no branch of the code modelled here reads them.
  The asynchronous flush is switched off in the source (\<open>flushAsync := false\<close>), so
  \<open>asyncAddSSTs\<close> is always empty and waiting on it returns at once.
\<close>

record SSTBatcher =
  rc_configured :: bool
  disallowShadowingBelow :: Timestamp
  skipDuplicates :: bool
  ingestAll :: bool
  batchTS :: Timestamp
  writeAtBatchTS :: bool
  disableScatters :: bool
  currentStats :: IngestionPerformanceStats
  sstWriter :: "(MVCCKey \<times> byte list) list"
  DataSize :: nat
  batchStartKey :: "byte list"
  batchEndKey :: "byte list"
  batchEndValue :: "byte list"
  batchEndTimestamp :: Timestamp
  flushKeyChecked :: bool
  flushKey :: "Key option"
  lastRange :: lastRange
  ms :: MVCCStats
  maxWriteTS :: Timestamp
  totalStats :: IngestionPerformanceStats
  sent :: "sentFile list"

datatype batcher_error =
    DuplicateKeyError Key "byte list"
  | ContextDone
  | FinishError
  | LimiterError
  | AddSSTableError
  | CountError
  | PutError

text \<open>\<open>func (b *SSTBatcher) updateMVCCStats(key storage.MVCCKey, value []byte)\<close>\<close>

definition updateMVCCStats :: "MVCCKey \<Rightarrow> byte list \<Rightarrow> SSTBatcher \<Rightarrow> SSTBatcher" where
  "updateMVCCStats key val b =
     (let metaKeySize = int (length (MVCC_Key key)) + 1;
          metaValSize = 0;
          totalBytes = int (length val) + MVCCVersionTimestampSize;
          m = ms b
      in b\<lparr>ms := \<lparr>LiveBytes = LiveBytes m + metaKeySize + totalBytes,
                   LiveCount = LiveCount m + 1,
                   KeyBytes = KeyBytes m + metaKeySize + MVCCVersionTimestampSize,
                   KeyCount = KeyCount m + 1,
                   ValBytes = ValBytes m + metaValSize + int (length val),
                   ValCount = ValCount m + 1\<rparr>\<rparr>)"

text \<open>\<open>func (b *SSTBatcher) Reset(ctx context.Context)\<close>\<close>

definition Reset :: "SSTBatcher \<Rightarrow> SSTBatcher" where
  "Reset b =
     b\<lparr>sstWriter := [], DataSize := 0, batchStartKey := [], batchEndKey := [],
       batchEndValue := [], batchEndTimestamp := Timestamp_zero, flushKey := None,
       flushKeyChecked := False, ms := MVCCStats_zero,
       batchTS := (if writeAtBatchTS b then Timestamp_zero else batchTS b)\<rparr>"

text \<open>
  The block of \<open>doFlush\<close> that splits the range before a file that would overfill it.
  Its calls of \<open>AdminSplit\<close> and \<open>AdminScatter\<close> act on the cluster; in the batcher they
  only count.
\<close>

definition count_split :: "SSTBatcher \<Rightarrow> SSTBatcher" where
  "count_split b = b\<lparr>currentStats := (currentStats b)\<lparr>Splits := Splits (currentStats b) + 1\<rparr>\<rparr>"

definition count_scatter :: "SSTBatcher \<Rightarrow> SSTBatcher" where
  "count_scatter b = b\<lparr>currentStats := (currentStats b)\<lparr>Scatters := Scatters (currentStats b) + 1\<rparr>\<rparr>"

definition split_above :: "Env \<Rightarrow> Key \<Rightarrow> SSTBatcher \<Rightarrow> SSTBatcher" where
  "split_above env end' b =
     (let nextKey = lr_nextExistingKey (lastRange b)
      in if length nextKey > 0 \<and> Key_Compare end' nextKey < 0 then
           (case EnsureSafeSplitKey env nextKey of
              None \<Rightarrow> b
            | Some splitAbove \<Rightarrow> if AdminSplit_error env splitAbove then b else count_split b)
         else b)"

definition split_at_start :: "Env \<Rightarrow> Key \<Rightarrow> SSTBatcher \<Rightarrow> SSTBatcher" where
  "split_at_start env start b =
     (case EnsureSafeSplitKey env start of
        None \<Rightarrow> b
      | Some splitAt \<Rightarrow>
          if AdminSplit_error env splitAt then b
          else if \<not> disableScatters b then
            (if AdminScatter_error env splitAt then count_split b
             else count_scatter (count_split b))
          else count_split b)"

definition split_full_range :: "Env \<Rightarrow> Key \<Rightarrow> Key \<Rightarrow> nat \<Rightarrow> SSTBatcher \<Rightarrow> SSTBatcher" where
  "split_full_range env start end' size' b =
     (if ContainsKey (lr_span (lastRange b)) start \<and> size' \<ge> lr_remaining (lastRange b)
      then split_at_start env start (split_above env end' b)
      else b)"

text \<open>The loop of \<open>doFlush\<close> over the results of \<open>AddSSTable\<close>.\<close>

definition take_result :: "addSSTResult \<Rightarrow> SSTBatcher \<Rightarrow> SSTBatcher" where
  "take_result r b =
     (let b1 = (if writeAtBatchTS b then b\<lparr>maxWriteTS := Forward (maxWriteTS b) (res_timestamp r)\<rparr>
                else b);
          lr1 = (lastRange b1)\<lparr>lr_span := res_rangeSpan r\<rparr>;
          lr2 = (if Valid (res_rangeSpan r)
                 then lr1\<lparr>lr_remaining := res_availableBytes r,
                          lr_nextExistingKey := res_followingLikelyNonEmptySpanStart r\<rparr>
                 else lr1)
      in b1\<lparr>lastRange := lr2\<rparr>)"

text \<open>The counter of the reason, in \<open>doFlush\<close>.\<close>

definition count_reason :: "flushReason \<Rightarrow> SSTBatcher \<Rightarrow> SSTBatcher" where
  "count_reason reason b =
     (case reason of
        sizeFlush \<Rightarrow>
          b\<lparr>currentStats := (currentStats b)\<lparr>BatchesDueToSize := BatchesDueToSize (currentStats b) + 1\<rparr>\<rparr>
      | rangeFlush \<Rightarrow>
          b\<lparr>currentStats := (currentStats b)\<lparr>BatchesDueToRange := BatchesDueToRange (currentStats b) + 1\<rparr>\<rparr>
      | manualFlush \<Rightarrow> b)"

text \<open>
  \<open>func (b *SSTBatcher) doFlush(ctx context.Context, reason int) error\<close>. The result is
  the error, if any, and the batcher as the call leaves it. The file covers
  \<open>[batchStartKey, batchEndKey.Next())\<close>.
\<close>

definition doFlush :: "Env \<Rightarrow> flushReason \<Rightarrow> SSTBatcher \<Rightarrow> batcher_error option \<times> SSTBatcher" where
  "doFlush env reason b =
     (if DataSize b = 0 then (None, b)
      else
        (let b1 = b\<lparr>currentStats := (currentStats b)\<lparr>Batches := Batches (currentStats b) + 1\<rparr>\<rparr>
         in if flush_delay_cancelled env then (Some ContextDone, b1)
            else if Finish_error env then (Some FinishError, b1)
            else
              (let start = batchStartKey b1;
                   end' = Next (batchEndKey b1);
                   size' = DataSize b1;
                   b2 = split_full_range env start end' size' (count_reason reason b1)
               in if limiter_Begin_error env then (Some LimiterError, b2)
                  else
                    (let copy = currentStats b2;
                         b3 = b2\<lparr>currentStats := stats_zero\<rparr>
                     in case AddSSTable env start end' (sstWriter b3) of
                          None \<Rightarrow> (Some AddSSTableError, b3)
                        | Some results \<Rightarrow>
                            (None,
                             (fold take_result results b3)
                               \<lparr>totalStats := stats_Combine (totalStats b3) copy,
                                sent := sent b3 @
                                  [\<lparr>sent_reason = reason, sent_start = start, sent_end = end',
                                    sent_data = sstWriter b3\<rparr>]\<rparr>)))))"

text \<open>\<open>func (b *SSTBatcher) flushIfNeeded(ctx context.Context, nextKey roachpb.Key) error\<close>\<close>

definition lookup_flushKey :: "Env \<Rightarrow> Key \<Rightarrow> SSTBatcher \<Rightarrow> SSTBatcher" where
  "lookup_flushKey env nextKey b =
     (if \<not> flushKeyChecked b \<and> rc_configured b then
        (case rc_Lookup env nextKey of
           None \<Rightarrow> b\<lparr>flushKeyChecked := True\<rparr>
         | Some k \<Rightarrow> b\<lparr>flushKeyChecked := True, flushKey := Some k\<rparr>)
      else b)"

definition flush_and_Reset :: "Env \<Rightarrow> flushReason \<Rightarrow> SSTBatcher \<Rightarrow> batcher_error option \<times> SSTBatcher" where
  "flush_and_Reset env reason b =
     (case doFlush env reason b of
        (Some err, b') \<Rightarrow> (Some err, b')
      | (None, b') \<Rightarrow> (None, Reset b'))"

definition flushIfNeeded :: "Env \<Rightarrow> Key \<Rightarrow> SSTBatcher \<Rightarrow> batcher_error option \<times> SSTBatcher" where
  "flushIfNeeded env nextKey b =
     (let b1 = lookup_flushKey env nextKey b;
          shouldFlushDueToRange =
            (case flushKey b1 of None \<Rightarrow> False | Some fk \<Rightarrow> Key_Compare fk nextKey \<le> 0)
      in if shouldFlushDueToRange then flush_and_Reset env rangeFlush b1
         else if DataSize b1 \<ge> ingestFileSize env then
           (let prevRow = EnsureSafeSplitKey env (batchEndKey b1);
                nextRow = EnsureSafeSplitKey env nextKey
            in if prevRow \<noteq> None \<and> nextRow \<noteq> None \<and> prevRow = nextRow then (None, b1)
               else flush_and_Reset env sizeFlush b1)
         else (None, b1))"

text \<open>
  Modelled from the spec: \<open>storage.SSTWriter\<close> is declared outside src/. \<open>PutRawMVCC\<close>
  appends the entry to the file under construction, whose \<open>DataSize\<close> is the spec's
  "buffered file's size", the key and value bytes added so far; it may fail.
\<close>

definition PutRawMVCC :: "Env \<Rightarrow> MVCCKey \<Rightarrow> byte list \<Rightarrow> SSTBatcher \<Rightarrow> batcher_error option \<times> SSTBatcher" where
  "PutRawMVCC env key val b =
     (if PutRawMVCC_error env key val then (Some PutError, b)
      else (None, b\<lparr>sstWriter := sstWriter b @ [(key, val)],
                     DataSize := DataSize b + length (MVCC_Key key) + length val\<rparr>))"

text \<open>
  \<open>func (b *SSTBatcher) AddMVCCKey(ctx, key storage.MVCCKey, value []byte) error\<close>:
  first the part after the check for a repeated key, then the method.
\<close>

definition AddMVCCKey_accept :: "Env \<Rightarrow> MVCCKey \<Rightarrow> byte list \<Rightarrow> SSTBatcher \<Rightarrow> batcher_error option \<times> SSTBatcher" where
  "AddMVCCKey_accept env key val b =
     (let b1 = (if writeAtBatchTS b \<and> IsEmpty (batchTS b) then b\<lparr>batchTS := clock_Now env\<rparr> else b);
          key1 = (if writeAtBatchTS b1 then key\<lparr>MVCC_Timestamp := batchTS b1\<rparr> else key);
          b2 = b1\<lparr>batchStartKey :=
                    (if length (batchStartKey b1) = 0 then MVCC_Key key1 else batchStartKey b1),
                  batchEndTimestamp := MVCC_Timestamp key1, batchEndKey := MVCC_Key key1,
                  batchEndValue := val\<rparr>
      in if Count_error env (MVCC_Key key1) then (Some CountError, b2)
         else PutRawMVCC env key1 val
                (if \<not> IsEmpty (disallowShadowingBelow b2) then updateMVCCStats key1 val b2 else b2))"

definition AddMVCCKey_flush_accept :: "Env \<Rightarrow> MVCCKey \<Rightarrow> byte list \<Rightarrow> SSTBatcher \<Rightarrow> batcher_error option \<times> SSTBatcher" where
  "AddMVCCKey_flush_accept env key val b =
     (case flushIfNeeded env (MVCC_Key key) b of
        (Some err, b') \<Rightarrow> (Some err, b')
      | (None, b') \<Rightarrow> AddMVCCKey_accept env key val b')"

definition AddMVCCKey :: "Env \<Rightarrow> MVCCKey \<Rightarrow> byte list \<Rightarrow> SSTBatcher \<Rightarrow> batcher_error option \<times> SSTBatcher" where
  "AddMVCCKey env key val b =
     (if length (batchEndKey b) > 0 \<and> batchEndKey b = MVCC_Key key then
        (if ingestAll b \<and> MVCC_Timestamp key = batchEndTimestamp b then
           (if batchEndValue b = val then (None, b)
            else (Some (DuplicateKeyError (MVCC_Key key) val), b))
         else if skipDuplicates b \<and> batchEndValue b = val then (None, b)
         else if \<not> ingestAll b then (Some (DuplicateKeyError (MVCC_Key key) val), b)
         else AddMVCCKey_flush_accept env key val b)
      else AddMVCCKey_flush_accept env key val b)"

text \<open>A run of adds; it stops at the first error, as a caller does.\<close>

fun AddMVCCKeys :: "Env \<Rightarrow> (MVCCKey \<times> byte list) list \<Rightarrow> SSTBatcher \<Rightarrow> batcher_error option \<times> SSTBatcher" where
  "AddMVCCKeys env [] b = (None, b)"
| "AddMVCCKeys env ((key, val) # kvs) b =
     (case AddMVCCKey env key val b of
        (Some err, b') \<Rightarrow> (Some err, b')
      | (None, b') \<Rightarrow> AddMVCCKeys env kvs b')"

text \<open>
  Concrete collaborators for the inputs below. The range cache knows three ranges, ending
  at the keys "m", "z" and at the maximal key; no key is a table key, so
  \<open>EnsureSafeSplitKey\<close> fails; no call fails otherwise; \<open>AddSSTable\<close> reports one range,
  the span of the file, with room left.
\<close>

definition env0 :: Env where
  "env0 =
     \<lparr>rc_Lookup = (\<lambda>k. if bytes_Compare k [109] < 0 then Some [109]
                       else if bytes_Compare k [122] < 0 then Some [122]
                       else Some [255, 255]),
      clock_Now = \<lparr>WallTime = 100, Logical = 0\<rparr>,
      ingestFileSize = 1000,
      EnsureSafeSplitKey = (\<lambda>k. None),
      Count_error = (\<lambda>k. False),
      PutRawMVCC_error = (\<lambda>k v. False),
      flush_delay_cancelled = False,
      Finish_error = False,
      limiter_Begin_error = False,
      AdminSplit_error = (\<lambda>k. False),
      AdminScatter_error = (\<lambda>k. False),
      AddSSTable = (\<lambda>s e d. Some [\<lparr>res_timestamp = Timestamp_zero,
                                       res_rangeSpan = \<lparr>Key = s, EndKey = e\<rparr>,
                                       res_availableBytes = 1000000,
                                       res_followingLikelyNonEmptySpanStart = []\<rparr>])\<rparr>"

text \<open>
  A batcher as \<open>MakeTestingSSTBatcher\<close> leaves it, after its \<open>Reset\<close>, with the range cache
  set or not.
\<close>

definition new_batcher :: "bool \<Rightarrow> bool \<Rightarrow> bool \<Rightarrow> SSTBatcher" where
  "new_batcher rc skip all =
     Reset \<lparr>rc_configured = rc, disallowShadowingBelow = Timestamp_zero, skipDuplicates = skip,
            ingestAll = all, batchTS = Timestamp_zero, writeAtBatchTS = False,
            disableScatters = False, currentStats = stats_zero, sstWriter = [], DataSize = 0,
            batchStartKey = [], batchEndKey = [], batchEndValue = [],
            batchEndTimestamp = Timestamp_zero, flushKeyChecked = False, flushKey = None,
            lastRange = \<lparr>lr_span = Span_zero, lr_remaining = 0, lr_nextExistingKey = []\<rparr>,
            ms = MVCCStats_zero, maxWriteTS = Timestamp_zero, totalStats = stats_zero,
            sent = []\<rparr>"

text \<open>The key \<open>k\<close> at timestamp 5.\<close>

definition at5 :: "Key \<Rightarrow> MVCCKey" where
  "at5 k = \<lparr>MVCC_Key = k, MVCC_Timestamp = \<lparr>WallTime = 5, Logical = 0\<rparr>\<rparr>"

text \<open>
  The batcher of \<open>new_batcher\<close> (without a range cache) after the key "a" at timestamp 5
  with the value "x" has been added.
\<close>

definition batcher_a :: "bool \<Rightarrow> bool \<Rightarrow> SSTBatcher" where
  "batcher_a skip all =
     (new_batcher False skip all)
       \<lparr>sstWriter := [(at5 [97], [120])], DataSize := 2, batchStartKey := [97],
        batchEndKey := [97], batchEndValue := [120],
        batchEndTimestamp := \<lparr>WallTime = 5, Logical = 0\<rparr>\<rparr>"

section \<open>Properties of the byte order\<close>

lemma bytes_Compare_range: "bytes_Compare a b \<in> {-1, 0, 1}"
  by (induction a b rule: bytes_Compare.induct) auto

lemma bytes_Compare_refl [simp]: "bytes_Compare a a = 0"
  by (induction a) auto

lemma bytes_Compare_eq_0: "bytes_Compare a b = 0 \<longleftrightarrow> a = b"
  by (induction a b rule: bytes_Compare.induct) auto

lemma bytes_Compare_flip: "bytes_Compare b a = - bytes_Compare a b"
  by (induction a b rule: bytes_Compare.induct) auto

lemma bytes_Compare_Nil_le [simp]: "bytes_Compare [] b \<le> 0"
  by (cases b) auto

lemma bytes_Compare_Nil_ge [simp]: "bytes_Compare a [] \<ge> 0"
  by (cases a) auto

lemma bytes_Compare_Nil_less: "bytes_Compare a [] < 0 \<longleftrightarrow> False"
  by (cases a) auto

lemma bytes_Compare_less_trans:
  "bytes_Compare a b < 0 \<Longrightarrow> bytes_Compare b c < 0 \<Longrightarrow> bytes_Compare a c < 0"
proof (induction a b arbitrary: c rule: bytes_Compare.induct)
  case 1
  then show ?case by simp
next
  case (2 y ys)
  then show ?case by (cases c) auto
next
  case (3 x xs)
  then show ?case by simp
next
  case (4 x xs y ys)
  then show ?case by (cases c) (auto split: if_splits)
qed

lemma bytes_Compare_le_less_trans:
  "bytes_Compare a b \<le> 0 \<Longrightarrow> bytes_Compare b c < 0 \<Longrightarrow> bytes_Compare a c < 0"
proof -
  assume h: "bytes_Compare a b \<le> 0" "bytes_Compare b c < 0"
  show ?thesis
  proof (cases "bytes_Compare a b = 0")
    case True
    then show ?thesis using h by (simp add: bytes_Compare_eq_0)
  next
    case False
    then have "bytes_Compare a b < 0" using h(1) by simp
    then show ?thesis using h(2) by (rule bytes_Compare_less_trans)
  qed
qed

lemma bytes_Compare_less_le_trans:
  "bytes_Compare a b < 0 \<Longrightarrow> bytes_Compare b c \<le> 0 \<Longrightarrow> bytes_Compare a c < 0"
proof -
  assume h: "bytes_Compare a b < 0" "bytes_Compare b c \<le> 0"
  show ?thesis
  proof (cases "bytes_Compare b c = 0")
    case True
    then show ?thesis using h by (simp add: bytes_Compare_eq_0)
  next
    case False
    then have "bytes_Compare b c < 0" using h(2) by simp
    with h(1) show ?thesis by (rule bytes_Compare_less_trans)
  qed
qed

text \<open>Nothing lies strictly between a key and its successor.\<close>

lemma bytes_Compare_Next_less: "bytes_Compare a (k @ [0]) < 0 \<longleftrightarrow> bytes_Compare a k \<le> 0"
proof (induction a k rule: bytes_Compare.induct)
  case 1
  then show ?case by simp
next
  case (2 y ys)
  then show ?case by simp
next
  case (3 x xs)
  then show ?case by (cases xs) (auto simp: word_gt_0)
next
  case (4 x xs y ys)
  then show ?case by auto
qed

lemma bytes_Compare_self_Next [simp]: "bytes_Compare k (k @ [0]) = -1"
  by (induction k) auto

section \<open>Single-key spans against half-open spans\<close>

lemma bytes_Compare_Next_greater:
  "bytes_Compare (k @ [0]) a > 0 \<longleftrightarrow> bytes_Compare k a \<ge> 0"
  using bytes_Compare_Next_less[of a k] bytes_Compare_flip[of a k]
    bytes_Compare_flip[of a "k @ [0]"]
  by auto

lemma bytes_Compare_between:
  "bytes_Compare a k \<ge> 0 \<and> bytes_Compare a (k @ [0]) < 0 \<longleftrightarrow> a = k"
  using bytes_Compare_Next_less[of a k] bytes_Compare_eq_0[of a k] by auto

lemma bytes_Compare_squeeze:
  assumes "bytes_Compare a b < 0" "bytes_Compare k a \<le> 0" "bytes_Compare (k @ [0]) b \<ge> 0"
  shows "a = k \<and> b = k @ [0]"
proof -
  have le: "bytes_Compare b (k @ [0]) \<le> 0"
    using assms(3) bytes_Compare_flip[of b "k @ [0]"] by simp
  with assms(1) have "bytes_Compare a (k @ [0]) < 0" by (rule bytes_Compare_less_le_trans)
  then have "bytes_Compare a k \<le> 0" by (simp add: bytes_Compare_Next_less)
  moreover have "bytes_Compare a k \<ge> 0" using assms(2) bytes_Compare_flip[of a k] by simp
  ultimately have ak: "a = k" by (simp add: bytes_Compare_eq_0 [symmetric])
  have "bytes_Compare k b < 0" using assms(1) ak by simp
  then have "\<not> bytes_Compare b k \<le> 0" using bytes_Compare_flip[of b k] by simp
  then have "\<not> bytes_Compare b (k @ [0]) < 0" by (simp add: bytes_Compare_Next_less)
  with le have "bytes_Compare b (k @ [0]) = 0" by simp
  then show ?thesis using ak by (simp add: bytes_Compare_eq_0)
qed

lemmas span_defs =
  Valid_def single_def point_range_def Next_def BytesNext_def Key_Equal_def Key_Compare_def

lemma Overlaps_single_receiver:
  "k \<noteq> [] \<Longrightarrow> Overlaps (single k) o' = Overlaps (point_range k) o'"
  using bytes_Compare_between[of "Key o'" k] bytes_Compare_Next_greater[of k "Key o'"]
  by (auto simp: Overlaps_def span_defs)

lemma Overlaps_single_argument:
  "k \<noteq> [] \<Longrightarrow> Overlaps o' (single k) = Overlaps o' (point_range k)"
  using bytes_Compare_between[of "Key o'" k] bytes_Compare_Next_greater[of k "Key o'"]
    bytes_Compare_Next_less[of "Key o'" k] bytes_Compare_flip[of "Key o'" k]
    bytes_Compare_flip[of "EndKey o'" k] bytes_Compare_Next_less[of "EndKey o'" k]
  by (auto simp: Overlaps_def span_defs)

lemma Contains_single_receiver:
  "k \<noteq> [] \<Longrightarrow> o' \<noteq> point_range k \<Longrightarrow>
     Contains (single k) o' = Contains (point_range k) o'"
  using bytes_Compare_between[of "Key o'" k] bytes_Compare_squeeze[of "Key o'" "EndKey o'" k]
  by (cases o') (auto simp: Contains_def span_defs)

lemma Contains_single_argument:
  "k \<noteq> [] \<Longrightarrow> o' \<noteq> single k \<Longrightarrow>
     Contains o' (single k) = Contains o' (point_range k)"
  using bytes_Compare_Next_less[of "EndKey o'" k] bytes_Compare_flip[of "EndKey o'" k]
    bytes_Compare_flip[of "EndKey o'" "k @ [0]"] bytes_Compare_flip[of "Key o'" k]
  by (cases o') (auto simp: Contains_def span_defs)

lemma SplitOnKey_single:
  "SplitOnKey (single k) key = (single k, Span_zero)"
  by (simp add: SplitOnKey_def span_defs)

lemma SplitOnKey_point_range:
  "SplitOnKey (point_range k) key = (point_range k, Span_zero)"
  using bytes_Compare_Next_less[of key k]
  by (auto simp: SplitOnKey_def span_defs)

lemma Intersect_single_receiver:
  assumes k: "k \<noteq> []"
  shows "as_range (Intersect (single k) o') = as_range (Intersect (point_range k) o')"
proof (cases "Overlaps (single k) o'")
  case False
  with k have "\<not> Overlaps (point_range k) o'" by (simp add: Overlaps_single_receiver)
  with False show ?thesis by (simp add: Intersect_def)
next
  case True
  with k have T2: "Overlaps (point_range k) o'" by (simp add: Overlaps_single_receiver)
  show ?thesis
    using k True T2 bytes_Compare_between[of "Key o'" k]
      bytes_Compare_Next_greater[of k "Key o'"]
      bytes_Compare_Next_less[of "EndKey o'" k] bytes_Compare_flip[of "EndKey o'" k]
      bytes_Compare_flip[of "EndKey o'" "k @ [0]"] bytes_Compare_flip[of "Key o'" k]
    by (cases o')
      (auto simp: Intersect_def Overlaps_def as_range_def span_defs split: if_splits)
qed

lemma Intersect_single_argument:
  assumes k: "k \<noteq> []"
  shows "as_range (Intersect o' (single k)) = as_range (Intersect o' (point_range k))"
proof (cases "Overlaps o' (single k)")
  case False
  with k have "\<not> Overlaps o' (point_range k)" by (simp add: Overlaps_single_argument)
  with False show ?thesis by (simp add: Intersect_def)
next
  case True
  with k have T2: "Overlaps o' (point_range k)" by (simp add: Overlaps_single_argument)
  show ?thesis
    using k True T2 bytes_Compare_between[of "Key o'" k]
      bytes_Compare_Next_greater[of k "Key o'"]
      bytes_Compare_Next_less[of "EndKey o'" k] bytes_Compare_flip[of "EndKey o'" k]
      bytes_Compare_flip[of "EndKey o'" "k @ [0]"] bytes_Compare_flip[of "Key o'" k]
    by (cases o')
      (auto simp: Intersect_def Overlaps_def as_range_def span_defs bytes_Compare_eq_0
            split: if_splits)
qed

text \<open>\<open>bytes.Compare\<close> is the lexicographic order on byte strings.\<close>

lemma bytes_Compare_lexorder: "bytes_Compare x y = (if x < y then -1 else if x = y then 0 else 1)"
  by (induction x y rule: bytes_Compare.induct) auto

lemma bytes_Compare_order:
  "bytes_Compare x y < 0 \<longleftrightarrow> x < y"
  "bytes_Compare x y \<le> 0 \<longleftrightarrow> x \<le> y"
  "bytes_Compare x y > 0 \<longleftrightarrow> y < x"
  "bytes_Compare x y \<ge> 0 \<longleftrightarrow> y \<le> x"
  by (auto simp: bytes_Compare_lexorder)

lemma less_Next_iff: "x < k @ [0::byte] \<longleftrightarrow> x \<le> k"
  using bytes_Compare_Next_less[of x k] by (simp add: bytes_Compare_order)

lemma Next_le_iff: "k @ [0::byte] \<le> x \<longleftrightarrow> k < x"
  using less_Next_iff[of x k] by auto

lemma Combine_single_closed:
  assumes "k \<noteq> []" "Valid \<lparr>Key = a, EndKey = b\<rparr>"
  shows "Combine (single k) \<lparr>Key = a, EndKey = b\<rparr> =
    (let mx = (if b \<noteq> [] \<and> max a k < b then b else max a k) in
     if min a k = mx then \<lparr>Key = min a k, EndKey = []\<rparr>
     else if k = mx \<or> a = mx then \<lparr>Key = min a k, EndKey = mx @ [0]\<rparr>
     else \<lparr>Key = min a k, EndKey = mx\<rparr>)"
proof -
  have v: "Valid (single k)" using assms(1) by (simp add: span_defs)
  have m1: "(if Key_Compare a k < 0 then a else k) = min a k"
    by (auto simp: Key_Compare_def bytes_Compare_order min_def)
  have m2: "(if Key_Compare a k < 0 then k else if Key_Compare a k > 0 then a else k) = max a k"
    by (auto simp: Key_Compare_def bytes_Compare_order max_def)
  show ?thesis
    unfolding Combine_def
    apply (simp only: v assms(2) simp_thms if_False)
    apply (simp only: single_def Span.simps list.size m1 m2 Let_def less_irrefl if_False)
    apply (simp add: Key_Compare_def Key_Equal_def Next_def BytesNext_def bytes_Compare_order)
    done
qed


lemma Combine_point_range_closed:
  assumes "Valid \<lparr>Key = a, EndKey = b\<rparr>"
  shows "Combine (point_range k) \<lparr>Key = a, EndKey = b\<rparr> =
    (let mx = (if b \<noteq> [] \<and> max a (k @ [0]) < b then b else max a (k @ [0])) in
     if min a k = mx then \<lparr>Key = min a k, EndKey = []\<rparr>
     else if k = mx \<or> a = mx then \<lparr>Key = min a k, EndKey = mx @ [0]\<rparr>
     else \<lparr>Key = min a k, EndKey = mx\<rparr>)"
proof -
  have v: "Valid (point_range k)" by (simp add: span_defs)
  have m1: "(if Key_Compare a k < 0 then a else k) = min a k"
    by (auto simp: Key_Compare_def bytes_Compare_order min_def)
  have m2: "(if Key_Compare a k < 0 then k @ [0]
             else if Key_Compare a (k @ [0]) > 0 then a else k @ [0]) = max a (k @ [0])"
  proof (cases "a < k")
    case True
    have "k < k @ [0]" by (simp add: less_Next_iff)
    with True have "a < k @ [0]" by (rule less_trans)
    then have "a \<le> k @ [0]" by (rule less_imp_le)
    then show ?thesis using True by (simp add: Key_Compare_def bytes_Compare_order max_def)
  next
    case False
    then show ?thesis by (auto simp: Key_Compare_def bytes_Compare_order max_def)
  qed
  have l: "(0 < length (k @ [0::byte])) = True" by simp
  show ?thesis
    unfolding Combine_def
    apply (simp only: v assms simp_thms if_False)
    apply (simp only: point_range_def Next_def BytesNext_def Span.simps Let_def l if_True m1 m2)
    apply (simp add: Key_Compare_def Key_Equal_def Next_def BytesNext_def bytes_Compare_order)
    done
qed



lemma Combine_single_receiver:
  assumes "k \<noteq> []"
  shows "as_range (Combine (single k) o') = as_range (Combine (point_range k) o')"
proof (cases "Valid o'")
  case False
  then show ?thesis by (simp add: Combine_def)
next
  case True
  obtain a b where o: "o' = \<lparr>Key = a, EndKey = b\<rparr>" by (cases o') auto
  have kk: "k < k @ [0]" by (simp add: less_Next_iff)
  have ab: "b \<noteq> [] \<Longrightarrow> a < b" using True by (auto simp: o Valid_def bytes_Compare_order split: if_splits)
  consider "a < k" | "a = k" | "k < a" by fastforce
  then show ?thesis
  proof cases
    case 1
    then have m: "max a k = k" "min a k = a" "max a (k @ [0]) = k @ [0]" using kk by (auto simp: max_def min_def)
    show ?thesis using 1 kk ab less_Next_iff[of b k] Next_le_iff[of k b] True assms
      unfolding o Combine_single_closed[OF assms True[unfolded o]] 
         Combine_point_range_closed[OF True[unfolded o]] m Let_def
      by (auto simp: as_range_def Next_def BytesNext_def)
  next
    case 2
    then have m: "max a k = k" "min a k = k" "max a (k @ [0]) = k @ [0]" using kk by (auto simp: max_def min_def)
    show ?thesis using 2 kk ab less_Next_iff[of b k] Next_le_iff[of k b] True assms
      unfolding o Combine_single_closed[OF assms True[unfolded o]] 
         Combine_point_range_closed[OF True[unfolded o]] m Let_def
      by (auto simp: as_range_def Next_def BytesNext_def)
  next
    case 3
    then have m: "max a k = a" "min a k = k" "max a (k @ [0]) = a" using kk Next_le_iff[of k a] by (auto simp: max_def min_def)
    show ?thesis using 3 kk ab True assms
      unfolding o Combine_single_closed[OF assms True[unfolded o]] 
         Combine_point_range_closed[OF True[unfolded o]] m Let_def
      by (auto simp: as_range_def Next_def BytesNext_def)
  qed
qed


lemma Combine_closed:
  assumes "Valid \<lparr>Key = a, EndKey = b\<rparr>" "Valid \<lparr>Key = c, EndKey = e\<rparr>"
  shows "Combine \<lparr>Key = a, EndKey = b\<rparr> \<lparr>Key = c, EndKey = e\<rparr> =
    (let mx = (if e \<noteq> [] \<and> max c (if b \<noteq> [] then b else a) < e then e
               else max c (if b \<noteq> [] then b else a)) in
     if min c a = mx then \<lparr>Key = min c a, EndKey = []\<rparr>
     else if a = mx \<or> c = mx then \<lparr>Key = min c a, EndKey = mx @ [0]\<rparr>
     else \<lparr>Key = min c a, EndKey = mx\<rparr>)"
proof -
  define m0 where "m0 = (if b \<noteq> [] then b else a)"
  have am0: "a \<le> m0" using assms(1) by (auto simp: m0_def Valid_def bytes_Compare_order split: if_splits)
  have l0: "(if 0 < length b then b else a) = m0" by (simp add: m0_def)
  have m1: "(if Key_Compare c a < 0 then c else a) = min c a"
    by (auto simp: Key_Compare_def bytes_Compare_order min_def)
  have m2: "(if Key_Compare c a < 0 then m0
             else if Key_Compare c m0 > 0 then c else m0) = max c m0"
  proof (cases "c < a")
    case True
    from True am0 have "c < m0" by (rule less_le_trans)
    then have "c \<le> m0" by (rule less_imp_le)
    then show ?thesis using True by (simp add: Key_Compare_def bytes_Compare_order max_def)
  next
    case False
    then show ?thesis by (auto simp: Key_Compare_def bytes_Compare_order max_def)
  qed
  have l1: "(0 < length e) = (e \<noteq> [])" by simp
  show ?thesis
    unfolding Combine_def m0_def[symmetric]
    apply (simp only: assms simp_thms if_False)
    apply (simp only: Span.simps Let_def l0 m1 m2 l1)
    apply (simp add: Key_Compare_def Key_Equal_def Next_def BytesNext_def bytes_Compare_order)
    done
qed

lemma Combine_single_argument:
  assumes "k \<noteq> []"
  shows "as_range (Combine o' (single k)) = as_range (Combine o' (point_range k))"
proof (cases "Valid o'")
  case False
  then show ?thesis by (simp add: Combine_def)
next
  case True
  obtain a b where o: "o' = \<lparr>Key = a, EndKey = b\<rparr>" by (cases o') auto
  define m0 where "m0 = (if b \<noteq> [] then b else a)"
  have v1: "Valid \<lparr>Key = k, EndKey = []\<rparr>" using assms by (simp add: Valid_def)
  have v2: "Valid \<lparr>Key = k, EndKey = k @ [0]\<rparr>" by (simp add: Valid_def)
  have kk: "k < k @ [0]" by (simp add: less_Next_iff)
  have am0: "a \<le> m0" using True by (auto simp: o m0_def Valid_def bytes_Compare_order split: if_splits)
  have bm0: "b \<noteq> [] \<Longrightarrow> a < m0" using True by (auto simp: o m0_def Valid_def bytes_Compare_order split: if_splits)
  have bm1: "b = [] \<Longrightarrow> a = m0" by (simp add: m0_def)
  consider "m0 < k" | "m0 = k" | "k < m0" by fastforce
  then show ?thesis
  proof cases
    case 1
    then have m: "max k m0 = k" "min k a = a" "max k m0 < k @ [0]" using kk am0 by (auto simp: max_def min_def)
    show ?thesis using 1 kk am0 bm0 bm1 assms
      unfolding o single_def point_range_def Next_def BytesNext_def
         Combine_closed[OF True[unfolded o] v1] Combine_closed[OF True[unfolded o] v2]
          m0_def[symmetric] Let_def
      by (auto simp: m as_range_def Next_def BytesNext_def)
  next
    case 2
    then have m: "max k m0 = k" "max k m0 < k @ [0]" using kk am0 by (auto simp: max_def min_def)
    show ?thesis using 2 kk am0 bm0 bm1 assms
      unfolding o single_def point_range_def Next_def BytesNext_def
         Combine_closed[OF True[unfolded o] v1] Combine_closed[OF True[unfolded o] v2]
          m0_def[symmetric] Let_def
      by (auto simp: m as_range_def min_def Next_def BytesNext_def)
  next
    case 3
    then have m: "max k m0 = m0" "\<not> max k m0 < k @ [0]" using kk am0 Next_le_iff[of k m0] by (auto simp: max_def min_def)
    show ?thesis using 3 kk am0 bm0 bm1 assms  Next_le_iff[of k m0] less_Next_iff[of a k]
      unfolding o single_def point_range_def Next_def BytesNext_def
         Combine_closed[OF True[unfolded o] v1] Combine_closed[OF True[unfolded o] v2]
          m0_def[symmetric] Let_def
      by (auto simp: m as_range_def min_def Next_def BytesNext_def)
  qed
qed

text \<open>
  Claim C9, as amended. For a non-empty key \<open>k\<close> and every span \<open>o\<close>, the single-key span
  \<open>{Key: k}\<close> and the half-open span \<open>[k, k.Next())\<close> give the same answer under
  \<open>Overlaps\<close> in either argument position; the same span, up to the representation of
  a single key, under \<open>Intersect\<close> and \<open>Combine\<close> in either position; and \<open>SplitOnKey\<close>
  returns either of them unsplit. \<open>Contains\<close> gives the same answer except against the
  same key in the other representation: as the receiver for every \<open>o\<close> other than
  \<open>[k, k.Next())\<close>, as the argument for every \<open>o\<close> other than \<open>{Key: k}\<close>.
\<close>
theorem single_key_span_equivalence:
  assumes "k \<noteq> []"
  shows "Overlaps (single k) o' = Overlaps (point_range k) o' \<and>
         Overlaps o' (single k) = Overlaps o' (point_range k) \<and>
         (o' \<noteq> point_range k \<longrightarrow> Contains (single k) o' = Contains (point_range k) o') \<and>
         (o' \<noteq> single k \<longrightarrow> Contains o' (single k) = Contains o' (point_range k)) \<and>
         as_range (Intersect (single k) o') = as_range (Intersect (point_range k) o') \<and>
         as_range (Intersect o' (single k)) = as_range (Intersect o' (point_range k)) \<and>
         as_range (Combine (single k) o') = as_range (Combine (point_range k) o') \<and>
         as_range (Combine o' (single k)) = as_range (Combine o' (point_range k)) \<and>
         SplitOnKey (single k) key = (single k, Span_zero) \<and>
         SplitOnKey (point_range k) key = (point_range k, Span_zero)"
  using assms
  by (simp add: Overlaps_single_receiver Overlaps_single_argument Contains_single_receiver
      Contains_single_argument Intersect_single_receiver Intersect_single_argument
      Combine_single_receiver Combine_single_argument
      SplitOnKey_single SplitOnKey_point_range)

text \<open>Claim C9: the amended statement at the key \<open>[1]\<close> against the span \<open>[[0], [2])\<close>.\<close>
theorem single_key_span_equivalence_witness:
  "[1::byte] \<noteq> [] \<and>
   \<lparr>Key = [0], EndKey = [2]\<rparr> \<noteq> point_range [1] \<and>
   \<lparr>Key = [0], EndKey = [2]\<rparr> \<noteq> single [1] \<and>
   Overlaps (single [1]) \<lparr>Key = [0], EndKey = [2]\<rparr> \<and>
   Overlaps (point_range [1]) \<lparr>Key = [0], EndKey = [2]\<rparr> \<and>
   Contains \<lparr>Key = [0], EndKey = [2]\<rparr> (single [1]) \<and>
   Contains \<lparr>Key = [0], EndKey = [2]\<rparr> (point_range [1]) \<and>
   \<not> Contains (single [1]) \<lparr>Key = [0], EndKey = [2]\<rparr> \<and>
   \<not> Contains (point_range [1]) \<lparr>Key = [0], EndKey = [2]\<rparr>"
  using single_key_span_equivalence [of "[1]" "\<lparr>Key = [0], EndKey = [2]\<rparr>"]
  by (simp add: Overlaps_def Contains_def span_defs)

text \<open>
  Claim C9 as stated fails for \<open>Contains\<close>: the single-key span \<open>{Key: [1]}\<close> does not
  contain the valid span \<open>[[1], [1].Next())\<close>, which the half-open form contains; and it
  contains \<open>{Key: [1]}\<close> but not \<open>[[1], [1].Next())\<close>, so the two forms also differ as
  the argument.
\<close>
theorem single_key_span_counterexample:
  "Valid \<lparr>Key = [1], EndKey = [1, 0]\<rparr> \<and>
   Next [1] = [1, 0] \<and>
   \<not> Contains \<lparr>Key = [1], EndKey = []\<rparr> \<lparr>Key = [1], EndKey = [1, 0]\<rparr> \<and>
   Contains \<lparr>Key = [1], EndKey = [1, 0]\<rparr> \<lparr>Key = [1], EndKey = [1, 0]\<rparr> \<and>
   Valid \<lparr>Key = [1], EndKey = []\<rparr> \<and>
   Contains \<lparr>Key = [1], EndKey = []\<rparr> \<lparr>Key = [1], EndKey = []\<rparr> \<and>
   \<not> Contains \<lparr>Key = [1], EndKey = []\<rparr> \<lparr>Key = [1], EndKey = [1, 0]\<rparr>"
  by (simp add: Contains_def span_defs)

section \<open>Transactions: restart, priority upgrade and merge\<close>

text \<open>\<open>LessEq\<close> is a preorder; \<open>Forward\<close> moves up in it and \<open>Backward\<close> down.\<close>

lemma LessEq_refl [simp]: "LessEq t t"
  by (simp add: LessEq_def)

lemma LessEq_trans: "LessEq a b \<Longrightarrow> LessEq b c \<Longrightarrow> LessEq a c"
  by (auto simp: LessEq_def)

lemma LessEq_Forward: "LessEq t (Forward t s)"
  by (auto simp: LessEq_def Forward_def Less_def)

lemma Backward_LessEq: "LessEq (Backward t s) t"
  by (auto simp: LessEq_def Backward_def Less_def)

lemma UpgradePriority_Priority:
  "Priority (UpgradePriority c t) =
     (if Priority t = MinTxnPriority then MinTxnPriority else smax (Priority t) c)"
  by (simp add: UpgradePriority_def smax_def)

lemma UpgradePriority_other [simp]:
  "Epoch (UpgradePriority c t) = Epoch t"
  "WriteTimestamp (UpgradePriority c t) = WriteTimestamp t"
  "ReadTimestamp (UpgradePriority c t) = ReadTimestamp t"
  "Status (UpgradePriority c t) = Status t"
  by (simp_all add: UpgradePriority_def)

lemma Restart_None: "Restart made up ts t = None \<longleftrightarrow> made = None"
  by (simp add: Restart_def Let_def split: option.splits)

lemma Restart_Some_fields:
  assumes "Restart made up ts t = Some t'"
  shows "Epoch t' = Epoch t + 1"
    and "WriteTimestamp t' = Forward (WriteTimestamp t) ts"
    and "ReadTimestamp t' = WriteTimestamp t'"
    and "Sequence t' = 0" and "\<not> ReadTimestampFixed t'" and "LockSpans t' = []"
    and "InFlightWrites t' = []" and "IgnoredSeqNums t' = []"
  using assms
  by (auto simp: Restart_def Let_def BumpEpoch_def Forward_def UpgradePriority_def split: option.splits)

lemma Restart_Priority:
  "map_option Priority (Restart (Some p) up ts t) =
     Some (Priority (UpgradePriority up (UpgradePriority p t)))"
  by (simp add: Restart_def Let_def BumpEpoch_def UpgradePriority_Priority)

lemma sint_succ:
  assumes "e \<noteq> (2147483647 :: int32)"
  shows "sint (e + 1) = sint e + 1"
proof -
  have r: "- (2 ^ 31) \<le> sint e" "sint e < 2 ^ 31"
    using sint_range_size[of e] by (simp_all add: word_size)
  have "sint e \<noteq> 2147483647"
  proof
    assume "sint e = 2147483647"
    then have "sint e = sint (2147483647 :: int32)" by simp
    then have "e = 2147483647" by (rule signed_word_eqI)
    with assms show False by simp
  qed
  with r have b: "sint e + 1 < 2 ^ 31" by simp
  have "sint (e + 1) = signed_take_bit 31 (sint e + 1)"
    by (simp add: sint_word_ariths)
  also have "\<dots> = sint e + 1"
    using r b by (intro signed_take_bit_int_eq_self) simp_all
  finally show ?thesis .
qed

lemma Restarts_timestamps:
  "LessEq (ReadTimestamp t) (WriteTimestamp t) \<Longrightarrow> Restarts cs t = Some u \<Longrightarrow>
     LessEq (ReadTimestamp t) (ReadTimestamp u) \<and> LessEq (WriteTimestamp t) (WriteTimestamp u)
     \<and> LessEq (ReadTimestamp u) (WriteTimestamp u)"
proof (induction cs arbitrary: t)
  case Nil
  then show ?case by simp
next
  case (Cons c cs)
  obtain made up ts where c: "c = (made, up, ts)" by (cases c) auto
  from Cons.prems(2) c obtain t' where
    r: "Restart made up ts t = Some t'" and rs: "Restarts cs t' = Some u"
    by (auto split: option.splits)
  have w: "WriteTimestamp t' = Forward (WriteTimestamp t) ts"
    and rd: "ReadTimestamp t' = WriteTimestamp t'"
    using Restart_Some_fields[OF r] by simp_all
  have inv: "LessEq (ReadTimestamp t') (WriteTimestamp t')" by (simp add: rd)
  have step_w: "LessEq (WriteTimestamp t) (WriteTimestamp t')" by (simp add: w LessEq_Forward)
  have step_r: "LessEq (ReadTimestamp t) (ReadTimestamp t')"
    using Cons.prems(1) step_w rd LessEq_trans by metis
  from Cons.IH[OF inv rs] step_w step_r show ?case
    using LessEq_trans by blast
qed

lemma Restarts_epoch:
  "Restarts cs t = Some u \<Longrightarrow> sint (Epoch t) + int (length cs) \<le> 2147483647 \<Longrightarrow>
     sint (Epoch u) = sint (Epoch t) + int (length cs)"
proof (induction cs arbitrary: t)
  case Nil
  then show ?case by simp
next
  case (Cons c cs)
  obtain made up ts where c: "c = (made, up, ts)" by (cases c) auto
  from Cons.prems(1) c obtain t' where
    r: "Restart made up ts t = Some t'" and rs: "Restarts cs t' = Some u"
    by (auto split: option.splits)
  have e: "Epoch t' = Epoch t + 1" using Restart_Some_fields[OF r] by simp
  have "sint (Epoch t) \<noteq> 2147483647" using Cons.prems(2) by simp
  then have "Epoch t \<noteq> 2147483647" by auto
  then have s: "sint (Epoch t') = sint (Epoch t) + 1" by (simp add: e sint_succ)
  from Cons.IH[OF rs] Cons.prems(2) s show ?case by simp
qed

lemma fold_observed_fields:
  "WriteTimestamp (fold (\<lambda>v. UpdateObservedTimestamp (fst v) (snd v)) xs t) = WriteTimestamp t"
  "ReadTimestamp (fold (\<lambda>v. UpdateObservedTimestamp (fst v) (snd v)) xs t) = ReadTimestamp t"
  "LastHeartbeat (fold (\<lambda>v. UpdateObservedTimestamp (fst v) (snd v)) xs t) = LastHeartbeat t"
  "GlobalUncertaintyLimit (fold (\<lambda>v. UpdateObservedTimestamp (fst v) (snd v)) xs t) = GlobalUncertaintyLimit t"
  "MinTimestamp (fold (\<lambda>v. UpdateObservedTimestamp (fst v) (snd v)) xs t) = MinTimestamp t"
  "Status (fold (\<lambda>v. UpdateObservedTimestamp (fst v) (snd v)) xs t) = Status t"
  by (induction xs arbitrary: t) (simp_all add: UpdateObservedTimestamp_def)

lemma Update_observed_fields [simp]:
  "WriteTimestamp (Update_observed t o') = WriteTimestamp t"
  "ReadTimestamp (Update_observed t o') = ReadTimestamp t"
  "LastHeartbeat (Update_observed t o') = LastHeartbeat t"
  "GlobalUncertaintyLimit (Update_observed t o') = GlobalUncertaintyLimit t"
  "MinTimestamp (Update_observed t o') = MinTimestamp t"
  "Status (Update_observed t o') = Status t"
  by (simp_all add: Update_observed_def fold_observed_fields)

lemma Update_epoch_scoped_timestamps [simp]:
  "WriteTimestamp (Update_epoch_scoped t o') = WriteTimestamp t"
  "ReadTimestamp (Update_epoch_scoped t o') = ReadTimestamp t"
  "LastHeartbeat (Update_epoch_scoped t o') = LastHeartbeat t"
  "GlobalUncertaintyLimit (Update_epoch_scoped t o') = GlobalUncertaintyLimit t"
  "MinTimestamp (Update_epoch_scoped t o') = MinTimestamp t"
  by (simp_all add: Update_epoch_scoped_def Update_later_epoch_def Update_same_epoch_def
      Update_same_epoch_status_def Update_same_epoch_fixed_def Update_same_epoch_lists_def
      Update_earlier_epoch_def Let_def split: TransactionStatus.splits)

lemma UpgradePriority_timestamps [simp]:
  "LastHeartbeat (UpgradePriority c t) = LastHeartbeat t"
  "GlobalUncertaintyLimit (UpgradePriority c t) = GlobalUncertaintyLimit t"
  "MinTimestamp (UpgradePriority c t) = MinTimestamp t"
  by (simp_all add: UpgradePriority_def)

lemma Update_key_iso_fields [simp]:
  "WriteTimestamp (Update_key_iso t o') = WriteTimestamp t"
  "ReadTimestamp (Update_key_iso t o') = ReadTimestamp t"
  "LastHeartbeat (Update_key_iso t o') = LastHeartbeat t"
  "GlobalUncertaintyLimit (Update_key_iso t o') = GlobalUncertaintyLimit t"
  "MinTimestamp (Update_key_iso t o') = MinTimestamp t"
  "Status (Update_key_iso t o') = Status t"
  "Epoch (Update_key_iso t o') = Epoch t"
  by (simp_all add: Update_key_iso_def)

lemma Update_min_timestamp_fields [simp]:
  "WriteTimestamp (Update_min_timestamp t o') = WriteTimestamp t"
  "ReadTimestamp (Update_min_timestamp t o') = ReadTimestamp t"
  "LastHeartbeat (Update_min_timestamp t o') = LastHeartbeat t"
  "GlobalUncertaintyLimit (Update_min_timestamp t o') = GlobalUncertaintyLimit t"
  "Status (Update_min_timestamp t o') = Status t"
  by (simp_all add: Update_min_timestamp_def)

lemma Update_admission_omit_fields [simp]:
  "WriteTimestamp (Update_admission_omit t o') = WriteTimestamp t"
  "ReadTimestamp (Update_admission_omit t o') = ReadTimestamp t"
  "LastHeartbeat (Update_admission_omit t o') = LastHeartbeat t"
  "GlobalUncertaintyLimit (Update_admission_omit t o') = GlobalUncertaintyLimit t"
  "MinTimestamp (Update_admission_omit t o') = MinTimestamp t"
  "Status (Update_admission_omit t o') = Status t"
  by (simp_all add: Update_admission_omit_def)

lemma Update_forward_fields [simp]:
  "WriteTimestamp (Update_forward t o') = Forward (WriteTimestamp t) (WriteTimestamp o')"
  "ReadTimestamp (Update_forward t o') = Forward (ReadTimestamp t) (ReadTimestamp o')"
  "LastHeartbeat (Update_forward t o') = Forward (LastHeartbeat t) (LastHeartbeat o')"
  "GlobalUncertaintyLimit (Update_forward t o') =
     Forward (GlobalUncertaintyLimit t) (GlobalUncertaintyLimit o')"
  "MinTimestamp (Update_forward t o') = MinTimestamp t"
  "Status (Update_forward t o') = Status t"
  by (simp_all add: Update_forward_def)

lemma Update_merge_timestamps:
  "WriteTimestamp (Update_merge t o') = Forward (WriteTimestamp t) (WriteTimestamp o')"
  "ReadTimestamp (Update_merge t o') = Forward (ReadTimestamp t) (ReadTimestamp o')"
  "LastHeartbeat (Update_merge t o') = Forward (LastHeartbeat t) (LastHeartbeat o')"
  "GlobalUncertaintyLimit (Update_merge t o') =
     Forward (GlobalUncertaintyLimit t) (GlobalUncertaintyLimit o')"
  "MinTimestamp (Update_merge t o') =
     (if IsEmpty (MinTimestamp t) then MinTimestamp o'
      else if IsEmpty (MinTimestamp o') then MinTimestamp t
      else Backward (MinTimestamp t) (MinTimestamp o'))"
  by (simp_all add: Update_merge_def Let_def Update_min_timestamp_def)

lemma Update_result:
  "ID t = ID o' \<Longrightarrow> ID t \<noteq> 0 \<Longrightarrow>
     Update t (Some o') = (if IsEmpty (WriteTimestamp o') then Inl UninitializedTxn
                          else Inr (Update_merge t o'))"
  by (simp add: Update_def AssertInitialized_def)

lemma Update_merge_Status:
  "Status (Update_merge t o') = Status (Update_epoch_scoped (Update_key_iso t o') o')"
  by (simp add: Update_merge_def Let_def)

lemma Update_epoch_scoped_abort_absorbed:
  "sint (Epoch o') < sint (Epoch t) \<Longrightarrow> Status o' = ABORTED \<Longrightarrow>
     Status (Update_epoch_scoped t o') = ABORTED"
  by (auto simp: Update_epoch_scoped_def Update_earlier_epoch_def)

lemma Update_epoch_scoped_aborted_stays:
  "Epoch t = Epoch o' \<Longrightarrow> Status t = ABORTED \<Longrightarrow>
     Status (Update_epoch_scoped t o') = ABORTED"
  by (simp add: Update_epoch_scoped_def Update_same_epoch_def Update_same_epoch_status_def
      Update_same_epoch_fixed_def Update_same_epoch_lists_def)

lemma Restarts_write:
  "Restarts cs t = Some u \<Longrightarrow> LessEq (WriteTimestamp t) (WriteTimestamp u)"
proof (induction cs arbitrary: t)
  case Nil
  then show ?case by simp
next
  case (Cons c cs)
  obtain made up ts where c: "c = (made, up, ts)" by (cases c) auto
  from Cons.prems c obtain t' where
    r: "Restart made up ts t = Some t'" and rs: "Restarts cs t' = Some u"
    by (auto split: option.splits)
  have "WriteTimestamp t' = Forward (WriteTimestamp t) ts"
    using Restart_Some_fields[OF r] by simp
  then have "LessEq (WriteTimestamp t) (WriteTimestamp t')" by (simp add: LessEq_Forward)
  with Cons.IH[OF rs] show ?case using LessEq_trans by blast
qed

text \<open>
  Claim C3, as amended. A call of \<open>Restart\<close> returns unless \<open>MakePriority\<close> panics.
  When it returns, the epoch is the old epoch plus one in int32 arithmetic, which is one
  more than the old epoch unless the old epoch is the largest int32 (there \<open>++\<close> wraps
  around to the smallest); the write timestamp is the larger of the old write timestamp
  and the argument; the read timestamp equals the new write timestamp; the sequence
  counter is 0, the read-timestamp-fixed flag is false and the lock spans, in-flight
  writes and ignored sequence ranges are empty. Across any run of \<open>Restart\<close> calls that
  return, the write timestamp never regresses; the read timestamp never regresses when it
  did not exceed the write timestamp at the start; and the epoch grows by the number of
  calls as long as that stays within int32.
\<close>
theorem Restart_effect:
  "(case Restart made up ts t of
      None \<Rightarrow> made = None
    | Some t' \<Rightarrow>
        Epoch t' = Epoch t + 1 \<and>
        (Epoch t \<noteq> 2147483647 \<longrightarrow> sint (Epoch t') = sint (Epoch t) + 1) \<and>
        WriteTimestamp t' = (if Less (WriteTimestamp t) ts then ts else WriteTimestamp t) \<and>
        ReadTimestamp t' = WriteTimestamp t' \<and>
        Sequence t' = 0 \<and> \<not> ReadTimestampFixed t' \<and> LockSpans t' = [] \<and>
        InFlightWrites t' = [] \<and> IgnoredSeqNums t' = [])
   \<and> (Restarts cs t = Some u \<longrightarrow>
        LessEq (WriteTimestamp t) (WriteTimestamp u) \<and>
        (LessEq (ReadTimestamp t) (WriteTimestamp t) \<longrightarrow>
           LessEq (ReadTimestamp t) (ReadTimestamp u)) \<and>
        (sint (Epoch t) + int (length cs) \<le> 2147483647 \<longrightarrow>
           sint (Epoch u) = sint (Epoch t) + int (length cs)))"
proof (intro conjI)
  show "case Restart made up ts t of
      None \<Rightarrow> made = None
    | Some t' \<Rightarrow>
        Epoch t' = Epoch t + 1 \<and>
        (Epoch t \<noteq> 2147483647 \<longrightarrow> sint (Epoch t') = sint (Epoch t) + 1) \<and>
        WriteTimestamp t' = (if Less (WriteTimestamp t) ts then ts else WriteTimestamp t) \<and>
        ReadTimestamp t' = WriteTimestamp t' \<and>
        Sequence t' = 0 \<and> \<not> ReadTimestampFixed t' \<and> LockSpans t' = [] \<and>
        InFlightWrites t' = [] \<and> IgnoredSeqNums t' = []"
  proof (cases made)
    case None
    have "Restart None up ts t = None" by (simp add: Restart_None)
    then show ?thesis by (simp add: None)
  next
    case (Some p)
    then obtain t' where r: "Restart made up ts t = Some t'"
      using Restart_None[of made up ts t] by auto
    note f = Restart_Some_fields[OF r]
    show ?thesis using f by (simp add: r sint_succ Forward_def)
  qed
  show "Restarts cs t = Some u \<longrightarrow>
        LessEq (WriteTimestamp t) (WriteTimestamp u) \<and>
        (LessEq (ReadTimestamp t) (WriteTimestamp t) \<longrightarrow>
           LessEq (ReadTimestamp t) (ReadTimestamp u)) \<and>
        (sint (Epoch t) + int (length cs) \<le> 2147483647 \<longrightarrow>
           sint (Epoch u) = sint (Epoch t) + int (length cs))"
    using Restarts_write Restarts_timestamps Restarts_epoch by blast
qed

lemma Restart_txn0:
  "Restart (Some 9) 7 \<lparr>WallTime = 20, Logical = 0\<rparr> txn0 = Some txn0_restarted"
  by (simp add: Restart_def Let_def BumpEpoch_def UpgradePriority_def txn0_def txn0_restarted_def
        Less_def MinTxnPriority_def)

text \<open>Claim C3: the amended statement at one restart of \<open>txn0\<close>.\<close>
theorem Restart_effect_witness:
  "Restart (Some 9) 7 \<lparr>WallTime = 20, Logical = 0\<rparr> txn0 = Some txn0_restarted \<and>
   Epoch txn0 \<noteq> 2147483647 \<and>
   Restarts [(Some 9, 7, \<lparr>WallTime = 20, Logical = 0\<rparr>)] txn0 = Some txn0_restarted \<and>
   LessEq (ReadTimestamp txn0) (WriteTimestamp txn0) \<and>
   sint (Epoch txn0) + int (length [(Some (9::int32), 7::int32, \<lparr>WallTime = 20, Logical = 0\<rparr>)]) \<le> 2147483647 \<and>
   sint (Epoch txn0_restarted) = sint (Epoch txn0) + 1 \<and>
   LessEq (WriteTimestamp txn0) (WriteTimestamp txn0_restarted) \<and>
   LessEq (ReadTimestamp txn0) (ReadTimestamp txn0_restarted) \<and>
   Sequence txn0_restarted = 0 \<and> LockSpans txn0_restarted = []"
  using Restart_effect [where made = "Some 9" and up = 7
      and ts = "\<lparr>WallTime = 20, Logical = 0\<rparr>" and t = txn0
      and cs = "[(Some 9, 7, \<lparr>WallTime = 20, Logical = 0\<rparr>)]" and u = txn0_restarted]
  by (simp add: Restart_txn0) (simp add: txn0_def txn0_restarted_def LessEq_def)

text \<open>
  Claim C3 as stated fails: at the largest int32 epoch the epoch after \<open>Restart\<close> is
  smaller than before, and a transaction whose read timestamp is above its write
  timestamp has its read timestamp moved back.
\<close>
theorem Restart_counterexample:
  "map_option Epoch (Restart (Some 1) 0 Timestamp_zero (txn0\<lparr>Epoch := 2147483647\<rparr>)) =
     Some (- 2147483648) \<and>
   sint (- 2147483648 :: int32) < sint (2147483647 :: int32) \<and>
   map_option ReadTimestamp
     (Restart (Some 1) 0 Timestamp_zero
        (txn0\<lparr>ReadTimestamp := \<lparr>WallTime = 5, Logical = 0\<rparr>,
              WriteTimestamp := \<lparr>WallTime = 3, Logical = 0\<rparr>\<rparr>)) =
     Some \<lparr>WallTime = 3, Logical = 0\<rparr> \<and>
   Less \<lparr>WallTime = 3, Logical = 0\<rparr> \<lparr>WallTime = 5, Logical = 0\<rparr>"
  by (simp add: Restart_def Let_def BumpEpoch_def UpgradePriority_def txn0_def
        Less_def MinTxnPriority_def Timestamp_zero_def)


text \<open>
  Claim C4. \<open>UpgradePriority(candidate)\<close> leaves a priority equal to the minimum
  sentinel unchanged for every candidate, and otherwise sets it to the larger of the
  current priority and the candidate; the priority after \<open>Restart\<close> is the result of that
  same rule applied twice, first to the priority made from the user priority and then to
  the upgrade priority.
\<close>
theorem UpgradePriority_sentinel:
  "Priority (UpgradePriority c t) =
     (if Priority t = MinTxnPriority then MinTxnPriority else smax (Priority t) c)
   \<and> map_option Priority (Restart (Some p) up ts t) =
       Some (if Priority t = MinTxnPriority then MinTxnPriority
             else if smax (Priority t) p = MinTxnPriority then MinTxnPriority
             else smax (smax (Priority t) p) up)"
  by (simp add: UpgradePriority_Priority Restart_Priority)

text \<open>
  Claim C5, as amended. For \<open>t\<close> and \<open>o\<close> with the same non-empty id, \<open>t.Update(o)\<close>
  either ends in the fatal error for an uninitialized \<open>o\<close> (its write timestamp is
  empty), or returns with the read timestamp, write timestamp, global uncertainty limit
  and last heartbeat of \<open>t\<close> each greater than or equal to its value before. The minimum
  timestamp is not forwarded: it is taken from \<open>o\<close> when \<open>t\<close> has none, kept when \<open>o\<close> has
  none, and otherwise becomes the smaller of the two, so once set it never advances.
\<close>
theorem Update_timestamps:
  assumes "ID t = ID o'" "ID t \<noteq> 0"
  shows "case Update t (Some o') of
           Inl e \<Rightarrow> e = UninitializedTxn \<and> IsEmpty (WriteTimestamp o')
         | Inr t' \<Rightarrow>
             LessEq (ReadTimestamp t) (ReadTimestamp t') \<and>
             LessEq (WriteTimestamp t) (WriteTimestamp t') \<and>
             LessEq (GlobalUncertaintyLimit t) (GlobalUncertaintyLimit t') \<and>
             LessEq (LastHeartbeat t) (LastHeartbeat t') \<and>
             MinTimestamp t' =
               (if IsEmpty (MinTimestamp t) then MinTimestamp o'
                else if IsEmpty (MinTimestamp o') then MinTimestamp t
                else Backward (MinTimestamp t) (MinTimestamp o')) \<and>
             (\<not> IsEmpty (MinTimestamp t) \<longrightarrow> LessEq (MinTimestamp t') (MinTimestamp t))"
proof (cases "IsEmpty (WriteTimestamp o')")
  case True
  then show ?thesis using assms by (simp add: Update_result)
next
  case False
  then have u: "Update t (Some o') = Inr (Update_merge t o')"
    using assms by (simp add: Update_result)
  show ?thesis
    by (simp add: u Update_merge_timestamps LessEq_Forward Backward_LessEq)
qed

text \<open>Claim C5: the amended statement at \<open>txn0\<close> merged with \<open>txn0_other\<close>.\<close>
theorem Update_timestamps_witness:
  "ID txn0 = ID txn0_other \<and> ID txn0 \<noteq> 0 \<and> \<not> IsEmpty (MinTimestamp txn0) \<and>
   Update txn0 (Some txn0_other) = Inr (Update_merge txn0 txn0_other) \<and>
   WriteTimestamp (Update_merge txn0 txn0_other) = \<lparr>WallTime = 12, Logical = 0\<rparr> \<and>
   LessEq (WriteTimestamp txn0) (WriteTimestamp (Update_merge txn0 txn0_other)) \<and>
   LessEq (MinTimestamp (Update_merge txn0 txn0_other)) (MinTimestamp txn0)"
proof -
  have h: "ID txn0 = ID txn0_other" "ID txn0 \<noteq> 0"
    by (simp_all add: txn0_def txn0_other_def)
  have u: "Update txn0 (Some txn0_other) = Inr (Update_merge txn0 txn0_other)"
    by (simp add: Update_def AssertInitialized_def txn0_def txn0_other_def IsEmpty_def)
  have ne: "\<not> IsEmpty (MinTimestamp txn0)" by (simp add: txn0_def IsEmpty_def)
  have w: "WriteTimestamp (Update_merge txn0 txn0_other) = \<lparr>WallTime = 12, Logical = 0\<rparr>"
    by (simp add: Update_merge_timestamps txn0_def txn0_other_def Forward_def Less_def)
  have "LessEq (WriteTimestamp txn0) (WriteTimestamp (Update_merge txn0 txn0_other)) \<and>
        (\<not> IsEmpty (MinTimestamp txn0) \<longrightarrow>
           LessEq (MinTimestamp (Update_merge txn0 txn0_other)) (MinTimestamp txn0))"
    using Update_timestamps [OF h, unfolded u sum.case] by blast
  with h u ne w show ?thesis by blast
qed

text \<open>
  Claim C5 as stated fails for the minimum timestamp: merging a transaction whose minimum
  timestamp is 8 into one whose minimum timestamp is 10 leaves 8.
\<close>
theorem Update_timestamps_counterexample:
  "ID txn0 = ID (txn0\<lparr>MinTimestamp := \<lparr>WallTime = 8, Logical = 0\<rparr>\<rparr>) \<and> ID txn0 \<noteq> 0 \<and>
   Update txn0 (Some (txn0\<lparr>MinTimestamp := \<lparr>WallTime = 8, Logical = 0\<rparr>\<rparr>)) =
     Inr (txn0\<lparr>MinTimestamp := \<lparr>WallTime = 8, Logical = 0\<rparr>\<rparr>) \<and>
   MinTimestamp txn0 = \<lparr>WallTime = 10, Logical = 0\<rparr> \<and>
   \<not> LessEq \<lparr>WallTime = 10, Logical = 0\<rparr> \<lparr>WallTime = 8, Logical = 0\<rparr>"
  by (simp add: Update_def AssertInitialized_def Update_merge_def Let_def Update_key_iso_def
      Update_epoch_scoped_def Update_same_epoch_def Update_same_epoch_status_def
      Update_same_epoch_fixed_def Update_same_epoch_lists_def Update_forward_def
      Update_min_timestamp_def Update_observed_def UpgradePriority_def
      Update_admission_omit_def txn0_def IsEmpty_def Forward_def Backward_def Less_def LessEq_def)

text \<open>
  Claim C6. For \<open>t\<close> and \<open>o\<close> with the same non-empty id, \<open>t.Update(o)\<close> either ends in
  the fatal error for an uninitialized \<open>o\<close>, or returns with: (a) status ABORTED when
  \<open>t\<close>'s epoch is strictly higher than \<open>o\<close>'s and \<open>o\<close> is ABORTED; (b) status still
  ABORTED, hence not COMMITTED, when \<open>t\<close> was ABORTED and the epochs are equal, whatever
  the status of \<open>o\<close>.
\<close>
theorem Update_abort_monotone:
  assumes "ID t = ID o'" "ID t \<noteq> 0"
  shows "case Update t (Some o') of
           Inl e \<Rightarrow> e = UninitializedTxn \<and> IsEmpty (WriteTimestamp o')
         | Inr t' \<Rightarrow>
             (sint (Epoch o') < sint (Epoch t) \<and> Status o' = ABORTED \<longrightarrow> Status t' = ABORTED) \<and>
             (Status t = ABORTED \<and> Epoch t = Epoch o' \<longrightarrow>
                Status t' = ABORTED \<and> Status t' \<noteq> COMMITTED)"
proof (cases "IsEmpty (WriteTimestamp o')")
  case True
  then show ?thesis using assms by (simp add: Update_result)
next
  case False
  then have u: "Update t (Some o') = Inr (Update_merge t o')"
    using assms by (simp add: Update_result)
  show ?thesis
    by (simp add: u Update_merge_Status Update_epoch_scoped_abort_absorbed
        Update_epoch_scoped_aborted_stays)
qed

text \<open>
  Claim C6: case (a) at an aborted \<open>o\<close> of epoch 0 merged into epoch 2, and case (b) at a
  committed \<open>o\<close> merged into an aborted \<open>t\<close> of the same epoch.
\<close>
theorem Update_abort_monotone_witness:
  "ID (txn0\<lparr>Epoch := 2\<rparr>) = ID (txn0\<lparr>Status := ABORTED\<rparr>) \<and> ID (txn0\<lparr>Epoch := 2\<rparr>) \<noteq> 0 \<and>
   sint (Epoch (txn0\<lparr>Status := ABORTED\<rparr>)) < sint (Epoch (txn0\<lparr>Epoch := 2\<rparr>)) \<and>
   Status (txn0\<lparr>Status := ABORTED\<rparr>) = ABORTED \<and>
   map_sum id Status (Update (txn0\<lparr>Epoch := 2\<rparr>) (Some (txn0\<lparr>Status := ABORTED\<rparr>))) = Inr ABORTED \<and>
   ID (txn0\<lparr>Status := ABORTED\<rparr>) = ID (txn0\<lparr>Status := COMMITTED\<rparr>) \<and>
   Epoch (txn0\<lparr>Status := ABORTED\<rparr>) = Epoch (txn0\<lparr>Status := COMMITTED\<rparr>) \<and>
   map_sum id Status (Update (txn0\<lparr>Status := ABORTED\<rparr>) (Some (txn0\<lparr>Status := COMMITTED\<rparr>))) =
     Inr ABORTED"
proof -
  have a: "Update (txn0\<lparr>Epoch := 2\<rparr>) (Some (txn0\<lparr>Status := ABORTED\<rparr>)) =
             Inr (Update_merge (txn0\<lparr>Epoch := 2\<rparr>) (txn0\<lparr>Status := ABORTED\<rparr>))"
    by (simp add: Update_def AssertInitialized_def txn0_def IsEmpty_def)
  have b: "Update (txn0\<lparr>Status := ABORTED\<rparr>) (Some (txn0\<lparr>Status := COMMITTED\<rparr>)) =
             Inr (Update_merge (txn0\<lparr>Status := ABORTED\<rparr>) (txn0\<lparr>Status := COMMITTED\<rparr>))"
    by (simp add: Update_def AssertInitialized_def txn0_def IsEmpty_def)
  have e: "sint (Epoch (txn0\<lparr>Status := ABORTED\<rparr>)) < sint (Epoch (txn0\<lparr>Epoch := 2\<rparr>))"
    by (simp add: txn0_def)
  from Update_abort_monotone [of "txn0\<lparr>Epoch := 2\<rparr>" "txn0\<lparr>Status := ABORTED\<rparr>"]
    Update_abort_monotone [of "txn0\<lparr>Status := ABORTED\<rparr>" "txn0\<lparr>Status := COMMITTED\<rparr>"]
  show ?thesis
    using e by (simp add: a b) (simp add: txn0_def)
qed


section \<open>Checksums: verification and initialization\<close>

lemmas value_defs = raw_def checksumUninitialized_def checksumSize_def tagPos_def headerSize_def
  extendedMVCCValLenSize_def ValueType_MVCC_EXTENDED_ENCODING_SENTINEL_def
  DecodeUint32Ascending_def EncodeUint32Ascending_def usesExtendedEncoding_def

lemma checksum_short: "length (raw v) < 4 \<Longrightarrow> checksum v = 0"
  by (simp add: checksum_def checksumSize_def)

lemma checksum_nil: "RawBytes v = None \<Longrightarrow> checksum v = 0"
  by (simp add: checksum_short raw_def)

lemma Verify_header_error:
  "0 < length (raw v) \<Longrightarrow> length (raw v) < 5 \<Longrightarrow>
     Verify crc key v = Inr (Some (InvalidHeaderSize (length (raw v))))"
  by (simp add: Verify_def VerifyHeader_def headerSize_def tagPos_def checksumSize_def Let_def)

lemma Verify_header_ok:
  "length (raw v) = 0 \<or> 5 \<le> length (raw v) \<Longrightarrow>
     Verify crc key v =
       (if checksum v = 0 then Inr None
        else case computeChecksum crc key (raw v) of
               Inl p \<Rightarrow> Inl p
             | Inr s \<Rightarrow> if s = checksum v then Inr None else Inr (Some (InvalidChecksum s)))"
  by (auto simp: Verify_def VerifyHeader_def headerSize_def tagPos_def checksumSize_def Let_def
      Value_computeChecksum_def split: sum.splits)

lemma computeChecksum_plain:
  "5 \<le> length r \<Longrightarrow> r ! 4 \<noteq> 101 \<Longrightarrow>
     computeChecksum crc key r =
       Inr (if crc (key @ drop 4 r) = 0 then 1 else crc (key @ drop 4 r))"
  by (simp add: computeChecksum_def value_defs Let_def)

lemma computeChecksum_extended:
  "5 \<le> length r \<Longrightarrow> r ! 4 = 101 \<Longrightarrow>
   unat (4 + BigEndian_Uint32 r + 1) + 5 \<le> length r \<Longrightarrow>
     computeChecksum crc key r =
       Inr (if crc (key @ drop 4 (drop (unat (4 + BigEndian_Uint32 r + 1)) r)) = 0 then 1
            else crc (key @ drop 4 (drop (unat (4 + BigEndian_Uint32 r + 1)) r)))"
  by (simp add: computeChecksum_def value_defs Let_def)

lemma computeChecksum_zero:
  "computeChecksum crc key r = Inr 0 \<Longrightarrow>
     length r < 5 \<or>
     (r ! 4 = 101 \<and> length (drop (unat (4 + BigEndian_Uint32 r + 1)) r) < 5)"
  by (auto simp: computeChecksum_def value_defs Let_def split: if_splits)

text \<open>
  Claim C2, as amended. For every value and key: when the raw bytes are non-empty but
  shorter than the 5-byte header, \<open>Verify\<close> fails with the header-size error whatever
  the checksum; otherwise it succeeds when the stored checksum is zero or absent, and
  when the stored checksum is non-zero and the digest computation returns, it succeeds
  when the two are equal and fails with the checksum error when they differ. The digest is
  the hasher's sum over the key followed by the bytes after the checksum field (those of
  the simple value behind the extended header, when the tag is the sentinel), with a sum
  of zero folded to 1; the computed checksum is 0 only for a value, or a simple value
  behind an extended header, that is shorter than a header.
\<close>
theorem Verify_checksum:
  "(length (raw v) = 0 \<or> 5 \<le> length (raw v) \<longrightarrow>
      (checksum v = 0 \<longrightarrow> Verify crc key v = Inr None) \<and>
      (checksum v \<noteq> 0 \<longrightarrow>
         (\<forall>s. computeChecksum crc key (raw v) = Inr s \<longrightarrow>
            (s = checksum v \<longrightarrow> Verify crc key v = Inr None) \<and>
            (s \<noteq> checksum v \<longrightarrow> Verify crc key v = Inr (Some (InvalidChecksum s)))))) \<and>
   (0 < length (raw v) \<and> length (raw v) < 5 \<longrightarrow>
      Verify crc key v = Inr (Some (InvalidHeaderSize (length (raw v))))) \<and>
   (5 \<le> length r \<and> r ! 4 \<noteq> 101 \<longrightarrow>
      computeChecksum crc key r =
        Inr (if crc (key @ drop 4 r) = 0 then 1 else crc (key @ drop 4 r))) \<and>
   (5 \<le> length r \<and> r ! 4 = 101 \<and> unat (4 + BigEndian_Uint32 r + 1) + 5 \<le> length r \<longrightarrow>
      computeChecksum crc key r =
        Inr (if crc (key @ drop 4 (drop (unat (4 + BigEndian_Uint32 r + 1)) r)) = 0 then 1
             else crc (key @ drop 4 (drop (unat (4 + BigEndian_Uint32 r + 1)) r)))) \<and>
   (computeChecksum crc key r = Inr 0 \<longrightarrow>
      length r < 5 \<or>
      (r ! 4 = 101 \<and> length (drop (unat (4 + BigEndian_Uint32 r + 1)) r) < 5))"
proof (intro conjI impI allI)
  assume h: "length (raw v) = 0 \<or> 5 \<le> length (raw v)"
  { assume "checksum v = 0"
    then show "Verify crc key v = Inr None" by (simp add: Verify_header_ok[OF h]) }
  { fix s
    assume c: "checksum v \<noteq> 0" and s: "computeChecksum crc key (raw v) = Inr s"
    { assume "s = checksum v"
      then show "Verify crc key v = Inr None" using c s by (simp add: Verify_header_ok[OF h]) }
    { assume "s \<noteq> checksum v"
      then show "Verify crc key v = Inr (Some (InvalidChecksum s))"
        using c s by (simp add: Verify_header_ok[OF h]) } }
next
  assume "0 < length (raw v) \<and> length (raw v) < 5"
  then show "Verify crc key v = Inr (Some (InvalidHeaderSize (length (raw v))))"
    by (simp add: Verify_header_error)
next
  assume "5 \<le> length r \<and> r ! 4 \<noteq> 101"
  then show "computeChecksum crc key r =
        Inr (if crc (key @ drop 4 r) = 0 then 1 else crc (key @ drop 4 r))"
    by (simp add: computeChecksum_plain)
next
  assume "5 \<le> length r \<and> r ! 4 = 101 \<and> unat (4 + BigEndian_Uint32 r + 1) + 5 \<le> length r"
  then show "computeChecksum crc key r =
        Inr (if crc (key @ drop 4 (drop (unat (4 + BigEndian_Uint32 r + 1)) r)) = 0 then 1
             else crc (key @ drop 4 (drop (unat (4 + BigEndian_Uint32 r + 1)) r)))"
    by (simp add: computeChecksum_extended)
next
  assume "computeChecksum crc key r = Inr 0"
  then show "length r < 5 \<or>
      (r ! 4 = 101 \<and> length (drop (unat (4 + BigEndian_Uint32 r + 1)) r) < 5)"
    by (rule computeChecksum_zero)
qed

text \<open>
  Claim C10. \<open>InitChecksum\<close> returns the value unchanged when its raw bytes are nil; it
  panics with the "initialized checksum" error when the stored checksum is non-zero; and
  when the stored checksum is zero that panic does not occur.
\<close>
theorem InitChecksum_cases:
  "(RawBytes v = None \<longrightarrow> InitChecksum crc key v = Inr v) \<and>
   (checksum v \<noteq> 0 \<longrightarrow> InitChecksum crc key v = Inl (InitializedChecksum (checksum v))) \<and>
   (checksum v = 0 \<longrightarrow> InitChecksum crc key v \<noteq> Inl (InitializedChecksum c))"
proof (intro conjI impI)
  assume "RawBytes v = None"
  then show "InitChecksum crc key v = Inr v" by (simp add: InitChecksum_def)
next
  assume c: "checksum v \<noteq> 0"
  then have "RawBytes v \<noteq> None" using checksum_nil by blast
  then show "InitChecksum crc key v = Inl (InitializedChecksum (checksum v))"
    using c by (auto simp: InitChecksum_def checksumUninitialized_def)
next
  assume "checksum v = 0"
  then show "InitChecksum crc key v \<noteq> Inl (InitializedChecksum c)"
    by (auto simp: InitChecksum_def checksumUninitialized_def Value_computeChecksum_def
        computeChecksum_def Let_def split: option.splits sum.splits if_splits)
qed


lemmas checksum_eval = Verify_def VerifyHeader_def Value_computeChecksum_def computeChecksum_def
  checksum_def InitChecksum_def setChecksum_def value_defs Let_def

text \<open>
  Claim C2: the amended statement at a matching, a differing and a zero checksum, at a
  two-byte value, and the digest of a plain value, of a zero sum and of a value with an
  extended header, with the byte sum as the hasher.
\<close>
theorem Verify_checksum_witness:
  "checksum \<lparr>RawBytes = Some [0, 0, 0, 13, 3, 9]\<rparr> = 13 \<and>
   computeChecksum byte_sum [1] [0, 0, 0, 13, 3, 9] = Inr 13 \<and>
   Verify byte_sum [1] \<lparr>RawBytes = Some [0, 0, 0, 13, 3, 9]\<rparr> = Inr None \<and>
   checksum \<lparr>RawBytes = Some [0, 0, 0, 12, 3, 9]\<rparr> = 12 \<and>
   Verify byte_sum [1] \<lparr>RawBytes = Some [0, 0, 0, 12, 3, 9]\<rparr> =
     Inr (Some (InvalidChecksum 13)) \<and>
   checksum \<lparr>RawBytes = Some [0, 0, 0, 0, 3, 9]\<rparr> = 0 \<and>
   Verify byte_sum [1] \<lparr>RawBytes = Some [0, 0, 0, 0, 3, 9]\<rparr> = Inr None \<and>
   Verify byte_sum [1] \<lparr>RawBytes = Some [0, 0]\<rparr> = Inr (Some (InvalidHeaderSize 2)) \<and>
   computeChecksum byte_sum [] [0, 0, 0, 0, 0] = Inr 1 \<and>
   computeChecksum byte_sum [1] [0, 0, 0, 2, 101, 7, 7, 0, 0, 0, 8, 3, 4] = Inr 8 \<and>
   computeChecksum byte_sum [1] [0, 0, 0, 0] = Inr 0"
  using
    Verify_checksum [where v = "\<lparr>RawBytes = Some [0, 0, 0, 13, 3, 9]\<rparr>" and crc = byte_sum
      and key = "[1]" and r = "[0, 0, 0, 13, 3, 9]"]
    Verify_checksum [where v = "\<lparr>RawBytes = Some [0, 0, 0, 12, 3, 9]\<rparr>" and crc = byte_sum
      and key = "[1]" and r = "[0, 0, 0, 2, 101, 7, 7, 0, 0, 0, 8, 3, 4]"]
    Verify_checksum [where v = "\<lparr>RawBytes = Some [0, 0, 0, 0, 3, 9]\<rparr>" and crc = byte_sum
      and key = "[1]" and r = "[0, 0, 0, 0]"]
    Verify_checksum [where v = "\<lparr>RawBytes = Some [0, 0]\<rparr>" and crc = byte_sum
      and key = "[1]" and r = "[0, 0, 0, 0, 0]"]
  by (simp add: checksum_eval)

text \<open>
  Claim C2 as stated fails: the one-byte value has no stored checksum and \<open>Verify\<close>
  returns an error; the computed checksum of a four-byte value is the sentinel 0; and on
  the five-byte value whose tag is the extended-encoding sentinel and whose checksum
  field is 1, \<open>Verify\<close> neither succeeds nor fails: the slice expression in
  \<open>computeChecksum\<close> panics.
\<close>
theorem Verify_checksum_counterexample:
  "checksum \<lparr>RawBytes = Some [0]\<rparr> = 0 \<and>
   Verify byte_sum [] \<lparr>RawBytes = Some [0]\<rparr> = Inr (Some (InvalidHeaderSize 1)) \<and>
   computeChecksum byte_sum [1] [0, 0, 0, 0] = Inr 0 \<and>
   checksum \<lparr>RawBytes = Some [0, 0, 0, 1, 101]\<rparr> = 1 \<and>
   Verify byte_sum [] \<lparr>RawBytes = Some [0, 0, 0, 1, 101]\<rparr> =
     Inl (SliceBoundsOutOfRange 6 5)"
  by (simp add: checksum_eval)

text \<open>
  Claim C10: a nil value, a value whose checksum field is 1, and a value whose checksum
  field is 0, which gets the checksum 13.
\<close>
theorem InitChecksum_cases_witness:
  "RawBytes \<lparr>RawBytes = None\<rparr> = None \<and>
   InitChecksum byte_sum [1] \<lparr>RawBytes = None\<rparr> = Inr \<lparr>RawBytes = None\<rparr> \<and>
   checksum \<lparr>RawBytes = Some [0, 0, 0, 1, 3, 9]\<rparr> \<noteq> 0 \<and>
   InitChecksum byte_sum [1] \<lparr>RawBytes = Some [0, 0, 0, 1, 3, 9]\<rparr> =
     Inl (InitializedChecksum 1) \<and>
   checksum \<lparr>RawBytes = Some [0, 0, 0, 0, 3, 9]\<rparr> = 0 \<and>
   InitChecksum byte_sum [1] \<lparr>RawBytes = Some [0, 0, 0, 0, 3, 9]\<rparr> \<noteq>
     Inl (InitializedChecksum 0) \<and>
   InitChecksum byte_sum [1] \<lparr>RawBytes = Some [0, 0, 0, 0, 3, 9]\<rparr> =
     Inr \<lparr>RawBytes = Some [0, 0, 0, 13, 3, 9]\<rparr>"
  using
    InitChecksum_cases [where v = "\<lparr>RawBytes = None\<rparr>" and crc = byte_sum and key = "[1]"]
    InitChecksum_cases [where v = "\<lparr>RawBytes = Some [0, 0, 0, 1, 3, 9]\<rparr>" and crc = byte_sum
      and key = "[1]"]
    InitChecksum_cases [where v = "\<lparr>RawBytes = Some [0, 0, 0, 0, 3, 9]\<rparr>" and crc = byte_sum
      and key = "[1]" and c = 0]
  by (simp add: checksum_eval)

section \<open>Lease equivalence\<close>

lemma Lease_Type_ignore [simp]: "Lease_Type (Equivalent_ignore l) = Lease_Type l"
  by (simp add: Lease_Type_def Equivalent_ignore_def)

lemma Equivalent_ignore_fields [simp]:
  "Start (Equivalent_ignore l) = Start l"
  "Expiration (Equivalent_ignore l) = Expiration l"
  "Replica (Equivalent_ignore l) = (Replica l)\<lparr>ReplicaType := 0\<rparr>"
  "DeprecatedStartStasis (Equivalent_ignore l) = None"
  "ProposedTS (Equivalent_ignore l) = Timestamp_zero"
  "Lease_Epoch (Equivalent_ignore l) = Lease_Epoch l"
  "Lease_Sequence (Equivalent_ignore l) = 0"
  "AcquisitionType (Equivalent_ignore l) = 0"
  "MinExpiration (Equivalent_ignore l) = MinExpiration l"
  "Term (Equivalent_ignore l) = Term l"
  by (simp_all add: Equivalent_ignore_def)





section \<open>The batcher: duplicate keys and range boundaries\<close>

lemmas batcher_eval = AddMVCCKey_def AddMVCCKey_flush_accept_def AddMVCCKey_accept_def
  flushIfNeeded_def lookup_flushKey_def flush_and_Reset_def doFlush_def PutRawMVCC_def
  Reset_def new_batcher_def env0_def at5_def Let_def IsEmpty_def Timestamp_zero_def
  Key_Compare_def count_reason_def split_full_range_def ContainsKey_def Span_zero_def
  take_result_def Valid_def stats_zero_def stats_Combine_def MVCCStats_zero_def Next_def
  BytesNext_def Forward_def Less_def

text \<open>
  Claim C1. When the batcher holds a key and the incoming key equals it: (a) in
  skip-duplicates mode an add with the value of the last entry returns no error and
  leaves the batcher unchanged, and one with another value returns a duplicate-key error
  (skip-duplicates mode excludes \<open>ingestAll\<close>, which by the comment on that field is only
  set when \<open>skipDuplicates\<close> is false); (b) in ingest-all mode an add with the timestamp
  and the value of the last entry returns no error and leaves the batcher unchanged, and
  one with that timestamp and another value returns a duplicate-key error; (c) with
  neither mode set the add returns a duplicate-key error. In each case the batcher is as
  it was.
\<close>
theorem AddMVCCKey_duplicates:
  assumes "length (batchEndKey b) > 0" "MVCC_Key key = batchEndKey b"
  shows
    "(skipDuplicates b \<and> val = batchEndValue b \<longrightarrow> AddMVCCKey env key val b = (None, b)) \<and>
     (skipDuplicates b \<and> \<not> ingestAll b \<and> val \<noteq> batchEndValue b \<longrightarrow>
        AddMVCCKey env key val b = (Some (DuplicateKeyError (MVCC_Key key) val), b)) \<and>
     (ingestAll b \<and> MVCC_Timestamp key = batchEndTimestamp b \<and> val = batchEndValue b \<longrightarrow>
        AddMVCCKey env key val b = (None, b)) \<and>
     (ingestAll b \<and> MVCC_Timestamp key = batchEndTimestamp b \<and> val \<noteq> batchEndValue b \<longrightarrow>
        AddMVCCKey env key val b = (Some (DuplicateKeyError (MVCC_Key key) val), b)) \<and>
     (\<not> skipDuplicates b \<and> \<not> ingestAll b \<longrightarrow>
        AddMVCCKey env key val b = (Some (DuplicateKeyError (MVCC_Key key) val), b))"
  using assms by (auto simp: AddMVCCKey_def)

text \<open>
  Claim C1: the scenario of the spec. In skip-duplicates mode the key "a" at timestamp 5
  with value "x" is added, added again (no error, same state), then added with value "y"
  (duplicate-key error); the same adds in ingest-all mode; and the repeat with neither
  mode set.
\<close>
theorem AddMVCCKey_duplicates_witness:
  "AddMVCCKey env0 (at5 [97]) [120] (new_batcher False True False) = (None, batcher_a True False) \<and>
   length (batchEndKey (batcher_a True False)) > 0 \<and>
   MVCC_Key (at5 [97]) = batchEndKey (batcher_a True False) \<and>
   skipDuplicates (batcher_a True False) \<and> \<not> ingestAll (batcher_a True False) \<and>
   [120] = batchEndValue (batcher_a True False) \<and>
   AddMVCCKey env0 (at5 [97]) [120] (batcher_a True False) = (None, batcher_a True False) \<and>
   AddMVCCKey env0 (at5 [97]) [121] (batcher_a True False) =
     (Some (DuplicateKeyError [97] [121]), batcher_a True False) \<and>
   ingestAll (batcher_a False True) \<and>
   MVCC_Timestamp (at5 [97]) = batchEndTimestamp (batcher_a False True) \<and>
   AddMVCCKey env0 (at5 [97]) [120] (batcher_a False True) = (None, batcher_a False True) \<and>
   AddMVCCKey env0 (at5 [97]) [121] (batcher_a False True) =
     (Some (DuplicateKeyError [97] [121]), batcher_a False True) \<and>
   \<not> skipDuplicates (batcher_a False False) \<and> \<not> ingestAll (batcher_a False False) \<and>
   AddMVCCKey env0 (at5 [97]) [120] (batcher_a False False) =
     (Some (DuplicateKeyError [97] [120]), batcher_a False False)"
proof -
  have first: "AddMVCCKey env0 (at5 [97]) [120] (new_batcher False True False) =
                 (None, batcher_a True False)"
    by (simp add: batcher_eval batcher_a_def)
  have h: "length (batchEndKey (batcher_a skip all)) > 0"
    "MVCC_Key (at5 [97]) = batchEndKey (batcher_a skip all)"
    "batchEndValue (batcher_a skip all) = [120]"
    "MVCC_Timestamp (at5 [97]) = batchEndTimestamp (batcher_a skip all)"
    "skipDuplicates (batcher_a skip all) = skip" "ingestAll (batcher_a skip all) = all"
    "batchEndKey (batcher_a skip all) = [97]"
    for skip all
    by (simp_all add: batcher_a_def new_batcher_def Reset_def at5_def)
  show ?thesis
    using first
      AddMVCCKey_duplicates [OF h(1,2), of True False "[120]" env0]
      AddMVCCKey_duplicates [OF h(1,2), of True False "[121]" env0]
      AddMVCCKey_duplicates [OF h(1,2), of False True "[120]" env0]
      AddMVCCKey_duplicates [OF h(1,2), of False True "[121]" env0]
      AddMVCCKey_duplicates [OF h(1,2), of False False "[120]" env0]
    by (simp add: h(3-7)) (simp add: at5_def)
qed

lemma stats_self: "\<exists>cs. b = b\<lparr>currentStats := cs\<rparr>"
  by (rule exI[of _ "currentStats b"]) simp

lemma count_reason_only: "\<exists>cs. count_reason r b = b\<lparr>currentStats := cs\<rparr>"
proof (cases r)
  case manualFlush
  then show ?thesis using stats_self[of b] by (simp add: count_reason_def)
next
  case sizeFlush
  then show ?thesis by (simp add: count_reason_def) blast
next
  case rangeFlush
  then show ?thesis by (simp add: count_reason_def) blast
qed

lemma count_split_only: "\<exists>cs. count_split b = b\<lparr>currentStats := cs\<rparr>"
  unfolding count_split_def by blast

lemma count_scatter_split_only:
  "\<exists>cs. count_scatter (count_split b) = b\<lparr>currentStats := cs\<rparr>"
  unfolding count_scatter_def count_split_def by (simp, blast)

lemma split_above_only: "\<exists>cs. split_above env e b = b\<lparr>currentStats := cs\<rparr>"
proof -
  have "split_above env e b = b \<or> split_above env e b = count_split b"
    by (simp add: split_above_def Let_def split: option.splits)
  then show ?thesis
    using stats_self[of b] count_split_only[of b] by auto
qed

lemma split_at_start_only: "\<exists>cs. split_at_start env s b = b\<lparr>currentStats := cs\<rparr>"
proof -
  have "split_at_start env s b = b \<or> split_at_start env s b = count_split b
    \<or> split_at_start env s b = count_scatter (count_split b)"
    by (simp add: split_at_start_def split: option.splits)
  then show ?thesis
    using stats_self[of b] count_split_only[of b] count_scatter_split_only[of b]
    by auto
qed

lemma split_full_range_only: "\<exists>cs. split_full_range env s e n b = b\<lparr>currentStats := cs\<rparr>"
proof -
  obtain c1 where c1: "split_above env e b = b\<lparr>currentStats := c1\<rparr>"
    using split_above_only by blast
  obtain c2 where c2: "split_at_start env s (b\<lparr>currentStats := c1\<rparr>) =
                         b\<lparr>currentStats := c1\<rparr>\<lparr>currentStats := c2\<rparr>"
    using split_at_start_only by blast
  have "split_at_start env s (split_above env e b) = b\<lparr>currentStats := c2\<rparr>"
    by (simp add: c1 c2)
  then have "\<exists>cs. split_at_start env s (split_above env e b) = b\<lparr>currentStats := cs\<rparr>"
    by blast
  then show ?thesis
    using stats_self[of b] by (simp add: split_full_range_def)
qed

lemma take_results_only:
  "\<exists>lr mw. fold take_result rs b = b\<lparr>lastRange := lr, maxWriteTS := mw\<rparr>"
proof (induction rs arbitrary: b)
  case Nil
  have "b = b\<lparr>lastRange := lastRange b, maxWriteTS := maxWriteTS b\<rparr>" by simp
  then have "\<exists>lr mw. b = b\<lparr>lastRange := lr, maxWriteTS := mw\<rparr>" by blast
  then show ?case by simp
next
  case (Cons r rs)
  have "take_result r b =
          b\<lparr>lastRange := lastRange (take_result r b), maxWriteTS := maxWriteTS (take_result r b)\<rparr>"
    by (simp add: take_result_def Let_def)
  then obtain lr mw where s: "take_result r b = b\<lparr>lastRange := lr, maxWriteTS := mw\<rparr>"
    by blast
  obtain lr' mw' where
    "fold take_result rs (b\<lparr>lastRange := lr, maxWriteTS := mw\<rparr>) =
       b\<lparr>lastRange := lr, maxWriteTS := mw\<rparr>\<lparr>lastRange := lr', maxWriteTS := mw'\<rparr>"
    using Cons.IH by blast
  then have "fold take_result (r # rs) b = b\<lparr>lastRange := lr', maxWriteTS := mw'\<rparr>"
    using s by simp
  then show ?case by blast
qed

lemma doFlush_success:
  assumes "DataSize b > 0" "\<not> flush_delay_cancelled env" "\<not> Finish_error env"
    "\<not> limiter_Begin_error env"
    "AddSSTable env (batchStartKey b) (Next (batchEndKey b)) (sstWriter b) = Some rs"
  shows "\<exists>lr mw ts.
           doFlush env reason b =
             (None, b\<lparr>currentStats := stats_zero, lastRange := lr, maxWriteTS := mw,
                       totalStats := ts,
                       sent := sent b @ [\<lparr>sent_reason = reason, sent_start = batchStartKey b,
                                            sent_end = Next (batchEndKey b),
                                            sent_data = sstWriter b\<rparr>]\<rparr>)"
proof -
  let ?b1 = "b\<lparr>currentStats := (currentStats b)\<lparr>Batches := Batches (currentStats b) + 1\<rparr>\<rparr>"
  obtain c1 where c1: "count_reason reason ?b1 = ?b1\<lparr>currentStats := c1\<rparr>"
    using count_reason_only by blast
  obtain c2 where c2: "split_full_range env (batchStartKey b) (Next (batchEndKey b)) (DataSize b)
                         (?b1\<lparr>currentStats := c1\<rparr>) = ?b1\<lparr>currentStats := c1\<rparr>\<lparr>currentStats := c2\<rparr>"
    using split_full_range_only by blast
  let ?b3 = "b\<lparr>currentStats := stats_zero\<rparr>"
  obtain lr mw where r: "fold take_result rs ?b3 = ?b3\<lparr>lastRange := lr, maxWriteTS := mw\<rparr>"
    using take_results_only by blast
  have "doFlush env reason b =
          (None, b\<lparr>currentStats := stats_zero, lastRange := lr, maxWriteTS := mw,
                    totalStats := stats_Combine (totalStats b) c2,
                    sent := sent b @ [\<lparr>sent_reason = reason, sent_start = batchStartKey b,
                                         sent_end = Next (batchEndKey b),
                                         sent_data = sstWriter b\<rparr>]\<rparr>)"
    using assms c1 c2 r
    by (simp add: doFlush_def Let_def)
  then show ?thesis by blast
qed


lemma doFlush_frame:
  "\<exists>cs lr mw ts sn.
     snd (doFlush env reason b) =
       b\<lparr>currentStats := cs, lastRange := lr, maxWriteTS := mw, totalStats := ts, sent := sn\<rparr>"
proof -
  have self: "b = b\<lparr>currentStats := currentStats b, lastRange := lastRange b,
                    maxWriteTS := maxWriteTS b, totalStats := totalStats b, sent := sent b\<rparr>"
    by simp
  let ?b1 = "b\<lparr>currentStats := (currentStats b)\<lparr>Batches := Batches (currentStats b) + 1\<rparr>\<rparr>"
  have b1: "?b1 = b\<lparr>currentStats := currentStats ?b1, lastRange := lastRange b,
                    maxWriteTS := maxWriteTS b, totalStats := totalStats b, sent := sent b\<rparr>"
    by simp
  obtain c1 where c1: "count_reason reason ?b1 = ?b1\<lparr>currentStats := c1\<rparr>"
    using count_reason_only by blast
  obtain c2 where c2: "split_full_range env (batchStartKey b) (Next (batchEndKey b)) (DataSize b)
                         (?b1\<lparr>currentStats := c1\<rparr>) = ?b1\<lparr>currentStats := c1\<rparr>\<lparr>currentStats := c2\<rparr>"
    using split_full_range_only by blast
  have b2: "b\<lparr>currentStats := c2\<rparr> =
            b\<lparr>currentStats := c2, lastRange := lastRange b,
              maxWriteTS := maxWriteTS b, totalStats := totalStats b, sent := sent b\<rparr>"
    by simp
  let ?b3 = "b\<lparr>currentStats := stats_zero\<rparr>"
  have b3: "?b3 = b\<lparr>currentStats := stats_zero, lastRange := lastRange b,
              maxWriteTS := maxWriteTS b, totalStats := totalStats b, sent := sent b\<rparr>"
    by simp
  have r: "\<exists>lr mw. fold take_result rs ?b3 = ?b3\<lparr>lastRange := lr, maxWriteTS := mw\<rparr>" for rs
    using take_results_only by blast
  have "doFlush env reason b = (None, b)
      \<or> (\<exists>e. doFlush env reason b = (Some e, ?b1))
      \<or> doFlush env reason b = (Some LimiterError, b\<lparr>currentStats := c2\<rparr>)
      \<or> doFlush env reason b = (Some AddSSTableError, ?b3)
      \<or> (\<exists>rs. doFlush env reason b =
         (None, (fold take_result rs ?b3)\<lparr>totalStats := stats_Combine (totalStats b) c2,
            sent := sent b @ [\<lparr>sent_reason = reason, sent_start = batchStartKey b,
                                 sent_end = Next (batchEndKey b), sent_data = sstWriter b\<rparr>]\<rparr>))"
    unfolding doFlush_def Let_def
    using c1 c2 by (simp split: option.splits) blast
  then consider (empty) "doFlush env reason b = (None, b)"
    | (early) e where "doFlush env reason b = (Some e, ?b1)"
    | (limiter) "doFlush env reason b = (Some LimiterError, b\<lparr>currentStats := c2\<rparr>)"
    | (add) "doFlush env reason b = (Some AddSSTableError, ?b3)"
    | (flushed) rs where "doFlush env reason b =
         (None, (fold take_result rs ?b3)\<lparr>totalStats := stats_Combine (totalStats b) c2,
            sent := sent b @ [\<lparr>sent_reason = reason, sent_start = batchStartKey b,
                                 sent_end = Next (batchEndKey b), sent_data = sstWriter b\<rparr>]\<rparr>)"
    by blast
  then show ?thesis
  proof cases
    case empty
    then show ?thesis using self by (metis snd_conv)
  next
    case early
    then show ?thesis using b1 by (metis snd_conv)
  next
    case limiter
    then show ?thesis using b2 by (metis snd_conv)
  next
    case add
    then show ?thesis using b3 by (metis snd_conv)
  next
    case (flushed rs)
    obtain lr mw where "fold take_result rs ?b3 = ?b3\<lparr>lastRange := lr, maxWriteTS := mw\<rparr>"
      using r by blast
    then have "snd (doFlush env reason b) =
       b\<lparr>currentStats := stats_zero, lastRange := lr, maxWriteTS := mw,
         totalStats := stats_Combine (totalStats b) c2,
         sent := sent b @ [\<lparr>sent_reason = reason, sent_start = batchStartKey b,
                                 sent_end = Next (batchEndKey b), sent_data = sstWriter b\<rparr>]\<rparr>"
      using flushed by simp
    then show ?thesis by blast
  qed
qed

lemma doFlush_keeps_buffer:
  "doFlush env reason b = (e, b') \<Longrightarrow>
     sstWriter b' = sstWriter b \<and> batchStartKey b' = batchStartKey b \<and>
     batchEndKey b' = batchEndKey b \<and> flushKey b' = flushKey b"
proof -
  assume d: "doFlush env reason b = (e, b')"
  obtain cs lr mw ts sn where
    "snd (doFlush env reason b) =
       b\<lparr>currentStats := cs, lastRange := lr, maxWriteTS := mw, totalStats := ts, sent := sn\<rparr>"
    using doFlush_frame by blast
  with d have "b' = b\<lparr>currentStats := cs, lastRange := lr, maxWriteTS := mw, totalStats := ts, sent := sn\<rparr>"
    by simp
  then show ?thesis by simp
qed

lemma AddMVCCKey_at_boundary:
  assumes "flushKey b = Some B" "flushKeyChecked b"
    and "Key_Compare B (MVCC_Key key) \<le> 0"
    and "batchEndKey b \<noteq> MVCC_Key key"
  shows "AddMVCCKey env key val b =
           (case doFlush env rangeFlush b of
              (Some err, b') \<Rightarrow> (Some err, b')
            | (None, b') \<Rightarrow> AddMVCCKey_accept env key val (Reset b'))"
  using assms
  by (simp add: AddMVCCKey_def AddMVCCKey_flush_accept_def flushIfNeeded_def lookup_flushKey_def
      flush_and_Reset_def Let_def split: prod.splits option.splits)

text \<open>
  Where the boundary is remembered, the add of a key at or beyond it flushes the buffered
  file, whose span is \<open>[batchStartKey, batchEndKey.Next())\<close>, for the range boundary,
  resets, and then accepts the key into an empty buffer, provided the flush and the put
  succeed. The batcher is left without a remembered boundary.
\<close>

lemma AddMVCCKey_range_flush:
  assumes fk: "flushKey b = Some B" "flushKeyChecked b"
    and ge: "Key_Compare B (MVCC_Key key) \<le> 0"
    and nd: "batchEndKey b \<noteq> MVCC_Key key"
    and ds: "DataSize b > 0"
    and ok: "\<not> flush_delay_cancelled env" "\<not> Finish_error env" "\<not> limiter_Begin_error env"
      "AddSSTable env (batchStartKey b) (Next (batchEndKey b)) (sstWriter b) = Some rs"
    and put: "\<not> Count_error env (MVCC_Key key)" "\<And>k. \<not> PutRawMVCC_error env k val"
  shows "\<exists>b'. AddMVCCKey env key val b = (None, b') \<and>
           sent b' = sent b @ [\<lparr>sent_reason = rangeFlush, sent_start = batchStartKey b,
                                 sent_end = Next (batchEndKey b), sent_data = sstWriter b\<rparr>] \<and>
           map (\<lambda>e. MVCC_Key (fst e)) (sstWriter b') = [MVCC_Key key] \<and>
           map snd (sstWriter b') = [val] \<and>
           batchStartKey b' = MVCC_Key key \<and> batchEndKey b' = MVCC_Key key \<and>
           flushKey b' = None \<and> \<not> flushKeyChecked b'"
proof -
  obtain lr mw ts where
    d: "doFlush env rangeFlush b =
          (None, b\<lparr>currentStats := stats_zero, lastRange := lr, maxWriteTS := mw,
                    totalStats := ts,
                    sent := sent b @ [\<lparr>sent_reason = rangeFlush, sent_start = batchStartKey b,
                                         sent_end = Next (batchEndKey b),
                                         sent_data = sstWriter b\<rparr>]\<rparr>)"
    using doFlush_success[OF ds ok] by blast
  show ?thesis
    using put
    by (simp add: AddMVCCKey_at_boundary[OF fk ge nd] d AddMVCCKey_accept_def Reset_def Let_def
        PutRawMVCC_def updateMVCCStats_def)
qed

text \<open>
  Claim C8 at the input where the code departs from it. The range cache holds the ranges
  ending at "m" and at "z". The keys "a", "n" and "zz" are added to a new batcher. The add
  of "n" flushes the file \<open>["a", "a\x00")\<close> for the range boundary and resets; "n" is then
  the first key added after the reset, and its range ends at "z", but \<open>flushIfNeeded\<close>
  has returned right after the reset and no boundary is remembered. The add of "zz",
  which is not below "z", looks up the range of "zz" instead and does not flush: one file
  has been sent, and "n" and "zz" are buffered together across the boundary "z".
\<close>
theorem boundary_of_first_key_not_looked_up:
  "rc_Lookup env0 [110] = Some [122] \<and> bytes_Compare [122] [122, 122] \<le> 0 \<and>
   flushKey (snd (AddMVCCKeys env0 [(at5 [97], [120]), (at5 [110], [120])]
                    (new_batcher True False False))) = None \<and>
   fst (AddMVCCKeys env0 [(at5 [97], [120]), (at5 [110], [120]), (at5 [122, 122], [120])]
          (new_batcher True False False)) = None \<and>
   sent (snd (AddMVCCKeys env0
                [(at5 [97], [120]), (at5 [110], [120]), (at5 [122, 122], [120])]
                (new_batcher True False False))) =
     [\<lparr>sent_reason = rangeFlush, sent_start = [97], sent_end = [97, 0],
       sent_data = [(at5 [97], [120])]\<rparr>] \<and>
   sstWriter (snd (AddMVCCKeys env0
                     [(at5 [97], [120]), (at5 [110], [120]), (at5 [122, 122], [120])]
                     (new_batcher True False False))) =
     [(at5 [110], [120]), (at5 [122, 122], [120])]"
  by (simp add: batcher_eval)

end
